theory Spec2Isabelle
  imports Complex_Main "HOL-Library.Word"
begin

unbundle bit_operations_syntax

section \<open>Conventions of the embedding\<close>

text \<open>
  The drivers compute on Go \<^verbatim>\<open>float64\<close> values. Configuration values and the
  quantities computed from ADC codes are finite numbers and are embedded as
  \<^typ>\<open>real\<close>: the comparisons, clamps and branch structure of the source are kept as
  written, and rounding is outside the model. A reading parsed from the text a board
  sends can also be NaN or infinite; such readings are values of the type \<open>float64\<close>
  of the Robo-Tank pH section. A \<^verbatim>\<open>time.Time\<close> is an
  \<^typ>\<open>int\<close> (nanoseconds on the monotonic clock); a field of that type is an
  \<^typ>\<open>int option\<close>, with \<open>None\<close> for Go's zero time (\<^verbatim>\<open>IsZero()\<close>).
  A \<^verbatim>\<open>time.Duration\<close> is an \<^typ>\<open>int\<close> of nanoseconds.
  Log output is not modelled. The mutexes are not modelled: every operation is embedded
  as the sequential function it is while it holds its locks.
\<close>

type_synonym time = int
type_synonym duration = int

definition Microsecond :: duration where "Microsecond = 1000"
definition Millisecond :: duration where "Millisecond = 1000000"
definition Minute :: duration where "Minute = 60000000000"

section \<open>Robo-Tank pH driver (robotank\_ph/driver.go)\<close>

definition truePH4 :: real where "truePH4 = 4"
definition truePH7 :: real where "truePH7 = 7"
definition truePH10 :: real where "truePH10 = 10"

text \<open>The calibration fields of \<^verbatim>\<open>Driver\<close>; \<open>-1\<close> disables an anchor.\<close>

record Driver =
  obs4 :: real
  obs7 :: real
  obs10 :: real

record anchor =
  truePH :: real
  obsPH :: real

text \<open>
  \<^verbatim>\<open>enabledAnchors\<close>: the enabled anchors, sorted by \<open>truePH\<close> ascending
  (\<^verbatim>\<open>sort.Slice\<close>; the keys 4, 7, 10 are distinct, so the sorted order is unique).
\<close>

definition enabledAnchors :: "Driver \<Rightarrow> anchor list" where
  "enabledAnchors d =
     sort_key truePH
       ((if obs4 d \<noteq> -1 then [\<lparr>truePH = truePH4, obsPH = obs4 d\<rparr>] else []) @
        (if obs7 d \<noteq> -1 then [\<lparr>truePH = truePH7, obsPH = obs7 d\<rparr>] else []) @
        (if obs10 d \<noteq> -1 then [\<lparr>truePH = truePH10, obsPH = obs10 d\<rparr>] else []))"

record mapDebug =
  dbg_den :: real
  dbg_t :: real
  dbg_y :: real

definition clampPH :: "real \<Rightarrow> real \<Rightarrow> real \<Rightarrow> real \<times> bool" where
  "clampPH v lo hi =
     (if v < lo then (lo, True)
      else if v > hi then (hi, True)
      else (v, False))"

text \<open>
  \<^verbatim>\<open>linearMapDbg\<close>: the first branch is the degenerate one (no division);
  the second one divides by \<open>den\<close>.
\<close>

definition linearMapDbg :: "real \<Rightarrow> real \<Rightarrow> real \<Rightarrow> real \<Rightarrow> real \<Rightarrow> mapDebug" where
  "linearMapDbg x x1 x2 y1 y2 =
     (let den = x2 - x1 in
      if \<bar>den\<bar> < 1 / 10 ^ 9 then \<lparr>dbg_den = den, dbg_t = 0, dbg_y = y1\<rparr>
      else
        (let t = (x - x1) / den;
             y = y1 + t * (y2 - y1)
         in \<lparr>dbg_den = den, dbg_t = t, dbg_y = y\<rparr>))"

text \<open>The safety clamp on the raw reading at the head of \<^verbatim>\<open>applyCalibration\<close>.\<close>

definition rawClamp :: "real \<Rightarrow> real" where
  "rawClamp rawIn =
     (let raw = (if rawIn < -1 then -1 else rawIn)
      in if raw > 15 then 15 else raw)"

text \<open>\<^verbatim>\<open>applyCalibration\<close> on a finite raw reading.\<close>

definition applyCalibration :: "Driver \<Rightarrow> real \<Rightarrow> real" where
  "applyCalibration d rawIn =
     (let raw = rawClamp rawIn in
      case enabledAnchors d of
        [] \<Rightarrow> raw
      | [a] \<Rightarrow> fst (clampPH (raw + (truePH a - obsPH a)) 0 14)
      | [a0, a1] \<Rightarrow>
          fst (clampPH (dbg_y (linearMapDbg raw (obsPH a0) (obsPH a1) (truePH a0) (truePH a1))) 0 14)
      | a0 # a1 # a2 # _ \<Rightarrow>
          (let left = (raw \<le> obsPH a1);
               dbg = (if left
                      then linearMapDbg raw (obsPH a0) (obsPH a1) (truePH a0) (truePH a1)
                      else linearMapDbg raw (obsPH a1) (obsPH a2) (truePH a1) (truePH a2))
           in fst (clampPH (dbg_y dbg) 0 14)))"

text \<open>
  \<^verbatim>\<open>readFloat\<close> returns what \<^verbatim>\<open>strconv.ParseFloat\<close> makes of the board's text, which
  may be NaN or an infinity. \<open>float64\<close> holds these values beside the finite ones, with
  the IEEE comparisons (false whenever an operand is NaN) and arithmetic (NaN whenever an
  operand is NaN or the result is undefined). Rounding, overflow of finite results and
  the sign of zero are not modelled.
\<close>

datatype float64 = NaN | NegInf | Fin real | PosInf

fun flt :: "float64 \<Rightarrow> float64 \<Rightarrow> bool" where
  "flt NaN b = False"
| "flt a NaN = False"
| "flt PosInf b = False"
| "flt a NegInf = False"
| "flt NegInf b = True"
| "flt a PosInf = True"
| "flt (Fin a) (Fin b) = (a < b)"










definition rawClampF :: "float64 \<Rightarrow> float64" where
  "rawClampF rawIn =
     (let raw = (if flt rawIn (Fin (-1)) then Fin (-1) else rawIn)
      in if flt (Fin 15) raw then Fin 15 else raw)"


text \<open>
  The pin operations read the board through \<^verbatim>\<open>readFloat("R")\<close>; its outcome
  (an I2C or parse error, or the raw pH as parsed) is the argument \<open>rd\<close>.
  \<^verbatim>\<open>Snapshot\<close> is embedded by the \<^verbatim>\<open>Value\<close> field of the snapshot it returns.
\<close>

datatype read_error = ReadError string




section \<open>Robo-Tank conductivity driver (robotank\_conductivity/driver.go)\<close>

text \<open>
  The repository holds two versions of this driver. This section embeds the one of
  robotank\_conductivity/driver.go, whose temperature state carries the validity flag
  \<^verbatim>\<open>tempValid\<close>; the next section embeds the other one.
\<close>

definition fixedRefUS :: real where "fixedRefUS = 53000"
definition fixedRefTempC :: real where "fixedRefTempC = 25"
definition fixedAlphaPerC :: real where "fixedAlphaPerC = 15 / 10000"
definition tempStaleAfter :: duration where "tempStaleAfter = 2 * Minute"

record RoboTankConductivity =
  absDFresh :: real
  absDStd :: real
  refUS :: real
  alphaPerC :: real
  refTempC :: real
  tempC :: real
  tempUpdatedAt :: "time option"
  tempValid :: bool

datatype cond_error =
    CondRead read_error
  | MissingCalibration
  | InvalidCalibration
  | InvalidParameters

text \<open>
  The factory of this driver (\<^verbatim>\<open>ValidateParameters\<close> and \<^verbatim>\<open>NewDriver\<close> in the
  factory.go that initialises \<^verbatim>\<open>tempValid\<close>), from the values it has read out of the
  parameter map: the two anchors and \<^verbatim>\<open>AlphaPerC\<close>. The address check is left out.
\<close>

definition ValidateParameters :: "real \<Rightarrow> real \<Rightarrow> real \<Rightarrow> bool" where
  "ValidateParameters absRODI absSTD alpha =
     (\<not> absRODI \<le> 0 \<and> \<not> absSTD \<le> 0 \<and> \<not> (absRODI > 0 \<and> absSTD > 0 \<and> absRODI = absSTD) \<and>
      \<not> alpha < 0 \<and> \<not> alpha > 5 / 100)"

definition NewDriver :: "real \<Rightarrow> real \<Rightarrow> real \<Rightarrow> cond_error + RoboTankConductivity" where
  "NewDriver absRODI absSTD alpha =
     (if \<not> ValidateParameters absRODI absSTD alpha then Inl InvalidParameters
      else Inr \<lparr>absDFresh = absRODI, absDStd = absSTD,
                refUS = fixedRefUS, alphaPerC = alpha, refTempC = fixedRefTempC,
                tempC = fixedRefTempC, tempUpdatedAt = None, tempValid = False\<rparr>)"

text \<open>\<^verbatim>\<open>SetTemperatureC\<close>; \<open>now\<close> is the value of \<^verbatim>\<open>time.Now()\<close>.\<close>

definition SetTemperatureC :: "RoboTankConductivity \<Rightarrow> time \<Rightarrow> real \<Rightarrow> RoboTankConductivity" where
  "SetTemperatureC d now tC =
     (let d1 = d\<lparr>tempUpdatedAt := Some now\<rparr> in
      if tC < 0 then d1\<lparr>tempValid := False, tempC := refTempC d1\<rparr>
      else d1\<lparr>tempC := tC, tempValid := True\<rparr>)"

definition usFromAbsD :: "RoboTankConductivity \<Rightarrow> real \<Rightarrow> cond_error + real" where
  "usFromAbsD d ad =
     (if absDFresh d \<le> 0 \<or> absDStd d \<le> 0 then Inl MissingCalibration
      else if absDFresh d = absDStd d then Inl InvalidCalibration
      else
        (let x = (absDFresh d - ad) / (absDFresh d - absDStd d);
             x = (if x < 0 then 0 else x);
             x = (if x > 12 / 10 then 12 / 10 else x)
         in Inr (x * refUS d)))"

text \<open>
  \<^verbatim>\<open>tempCompToRef\<close> returns the compensated value and the driver, whose temperature
  state it downgrades when the injected temperature is missing or stale.
\<close>

definition tempCompToRef :: "RoboTankConductivity \<Rightarrow> time \<Rightarrow> real \<Rightarrow> real \<times> RoboTankConductivity" where
  "tempCompToRef d now us =
     (if \<not> tempValid d then (us, d)
      else
        (case tempUpdatedAt d of
           None \<Rightarrow> (us, d\<lparr>tempValid := False, tempC := refTempC d\<rparr>)
         | Some updatedAt \<Rightarrow>
             (let age = now - updatedAt in
              if age > tempStaleAfter then (us, d\<lparr>tempValid := False, tempC := refTempC d\<rparr>)
              else
                (let den = 1 + alphaPerC d * (tempC d - refTempC d);
                     den = (if den \<le> 1 / 10 then 1 / 10 else den)
                 in (us / den, d)))))"

definition pptFromUS :: "RoboTankConductivity \<Rightarrow> real \<Rightarrow> real" where
  "pptFromUS d usRef = usRef * (35 / refUS d)"

text \<open>
  \<^verbatim>\<open>compute\<close> and the pin's \<^verbatim>\<open>Value\<close>. The outcome of \<^verbatim>\<open>absDiff\<close> (the two board
  readings \<open>U\<close> and \<open>V\<close>, or the read error) is the argument \<open>rd\<close>.
\<close>

definition compute ::
  "RoboTankConductivity \<Rightarrow> time \<Rightarrow> read_error + real \<times> real \<Rightarrow>
   (cond_error + real) \<times> RoboTankConductivity" where
  "compute d now rd =
     (case rd of
        Inl e \<Rightarrow> (Inl (CondRead e), d)
      | Inr (u, v) \<Rightarrow>
          (case usFromAbsD d \<bar>u - v\<bar> of
             Inl e \<Rightarrow> (Inl e, d)
           | Inr us \<Rightarrow> (let (usRef, d') = tempCompToRef d now us in (Inr usRef, d'))))"

definition cond_Value ::
  "RoboTankConductivity \<Rightarrow> nat \<Rightarrow> time \<Rightarrow> read_error + real \<times> real \<Rightarrow>
   (cond_error + real) \<times> RoboTankConductivity" where
  "cond_Value d ch now rd =
     (case compute d now rd of
        (Inl e, d') \<Rightarrow> (Inl e, d')
      | (Inr usRef, d') \<Rightarrow> (if ch = 0 then (Inr usRef, d') else (Inr (pptFromUS d' usRef), d')))"

section \<open>Robo-Tank conductivity driver, the version with DoTempComp\<close>

text \<open>
  The second version of the conductivity driver (same package, struct and method names):
  its temperature state has no validity flag, compensation is switched by the
  configuration flag \<^verbatim>\<open>doTempComp\<close>, and its \<^verbatim>\<open>usFromAbsD\<close> is the one above. Its names
  carry the prefix or suffix \<open>dtc\<close> here. Its factory (the second part of
  robotank\_conductivity/driver.go) validates the address only.
\<close>

definition dtc_fixedAlphaPerC :: real where "dtc_fixedAlphaPerC = 19 / 1000"

record RoboTankConductivityDTC =
  dtc_absDFresh :: real
  dtc_absDStd :: real
  dtc_refUS :: real
  dtc_alphaPerC :: real
  dtc_refTempC :: real
  dtc_tempC :: real
  dtc_tempUpdatedAt :: "time option"
  dtc_doTempComp :: bool

definition NewDriver_dtc :: "real \<Rightarrow> real \<Rightarrow> real \<Rightarrow> bool \<Rightarrow> RoboTankConductivityDTC" where
  "NewDriver_dtc absFresh absStd refT doTC =
     \<lparr>dtc_absDFresh = absFresh, dtc_absDStd = absStd, dtc_refUS = fixedRefUS,
      dtc_alphaPerC = dtc_fixedAlphaPerC, dtc_refTempC = refT, dtc_tempC = refT,
      dtc_tempUpdatedAt = None, dtc_doTempComp = doTC\<rparr>"

definition SetTemperatureC_dtc ::
  "RoboTankConductivityDTC \<Rightarrow> time \<Rightarrow> real \<Rightarrow> RoboTankConductivityDTC" where
  "SetTemperatureC_dtc d now tC = d\<lparr>dtc_tempC := tC, dtc_tempUpdatedAt := Some now\<rparr>"

text \<open>
  \<^verbatim>\<open>tempCompToRef\<close> of this version reads the clock (\<open>now\<close>) only to log a warning when
  the temperature was never set or is older than two minutes; the value returned does not
  depend on it.
\<close>

definition tempCompToRef_dtc :: "RoboTankConductivityDTC \<Rightarrow> time \<Rightarrow> real \<Rightarrow> real" where
  "tempCompToRef_dtc d now us =
     (if \<not> dtc_doTempComp d then us
      else
        (let den = 1 + dtc_alphaPerC d * (dtc_tempC d - dtc_refTempC d);
             den = (if den \<le> 1 / 10 then 1 / 10 else den)
         in us / den))"

section \<open>The I2C bus and the clock\<close>

text \<open>
  The environment of the ADC drivers: the clock, and a bus that answers the \<open>k\<close>-th
  transaction issued on it with a latency and either an error or the bytes read.
  \<open>trace\<close> lists the transactions issued so far, oldest first. A call of
  \<^verbatim>\<open>time.Now()\<close> reads \<open>clock\<close>; \<^verbatim>\<open>time.Sleep\<close> and a bus transaction advance it.
\<close>

type_synonym byte = "8 word"

datatype bus_error = BusError string

datatype bus_op =
    OpReadBytes nat
  | OpWriteToReg byte "byte list"
  | OpReadFromReg byte nat

record world =
  clock :: time
  bus :: "nat \<Rightarrow> nat \<times> (bus_error + byte list)"
  trace :: "bus_op list"

definition Sleep :: "duration \<Rightarrow> world \<Rightarrow> world" where
  "Sleep dur w = w\<lparr>clock := clock w + dur\<rparr>"

definition transact :: "bus_op \<Rightarrow> world \<Rightarrow> (bus_error + byte list) \<times> world" where
  "transact op w =
     (let (latency, r) = bus w (length (trace w))
      in (r, w\<lparr>clock := clock w + int latency, trace := trace w @ [op]\<rparr>))"

definition ReadBytes :: "nat \<Rightarrow> world \<Rightarrow> (bus_error + byte list) \<times> world" where
  "ReadBytes n w = transact (OpReadBytes n) w"

definition WriteToReg :: "byte \<Rightarrow> byte list \<Rightarrow> world \<Rightarrow> bus_error option \<times> world" where
  "WriteToReg reg buf w =
     (let (r, w') = transact (OpWriteToReg reg buf) w
      in (case r of Inl e \<Rightarrow> (Some e, w') | Inr _ \<Rightarrow> (None, w')))"

text \<open>
  \<^verbatim>\<open>ReadFromReg\<close> fills the caller's buffer of \<open>n\<close> bytes (zero-initialised by
  \<^verbatim>\<open>make\<close>) with the bytes the bus returns.
\<close>

definition ReadFromReg :: "byte \<Rightarrow> nat \<Rightarrow> world \<Rightarrow> (bus_error + byte list) \<times> world" where
  "ReadFromReg reg n w =
     (let (r, w') = transact (OpReadFromReg reg n) w
      in (case r of Inl e \<Rightarrow> (Inl e, w') | Inr bs \<Rightarrow> (Inr (take n (bs @ replicate n 0)), w')))"

section \<open>AliExpress ADC drivers (aliexpress\_orp/driver.go, aliexpress\_ph)\<close>

definition adcOffsetBinaryMid :: int where "adcOffsetBinaryMid = 0x20000000"
definition adcScale :: real where "adcScale = 536870912"
definition minI2CGap :: duration where "minI2CGap = 35 * Millisecond"
definition settleAfterRead :: duration where "settleAfterRead = 2 * Millisecond"
definition cacheMaxAge :: duration where "cacheMaxAge = 250 * Millisecond"
definition retryDelay :: duration where "retryDelay = 20 * Millisecond"

text \<open>
  The two drivers declare the same ADC fields and the same \<^verbatim>\<open>readObservedMV\<close>,
  \<^verbatim>\<open>adcI2C24ToCode\<close> and \<^verbatim>\<open>adcCodeToVolts\<close>. The shared fields are the record
  \<open>adc_dev\<close>, which each driver extends with its own fields.
\<close>

record adc_dev =
  vrefV :: real
  lastXferAt :: "time option"
  lastSampleAt :: "time option"
  lastMV :: real
  lastRaw :: "byte list"
  lastCode :: "32 word"

record AliExpressORP = adc_dev +
  offset :: real

record AliExpressPH = adc_dev +
  ph7mV :: real
  ph4mV :: real
  ph10mV :: real
  slopeOverride :: real
  doTempComp :: bool
  ph_refTempC :: real
  ph_tempC :: real
  ph_tempUpdatedAt :: "time option"

datatype adc_error =
    Bus bus_error
  | ShortRead "byte list"
  | AllFF "byte list"
  | IndexOutOfRange

text \<open>\<^verbatim>\<open>strings.ToLower\<close> and \<^verbatim>\<open>strings.Contains\<close>, on ASCII text.\<close>

definition toLower :: "char \<Rightarrow> char" where
  "toLower c =
     (if (65::nat) \<le> of_char c \<and> of_char c \<le> (90::nat) then char_of (of_char c + (32::nat)) else c)"

fun Contains :: "string \<Rightarrow> string \<Rightarrow> bool" where
  "Contains [] sub = (sub = [])"
| "Contains (c # cs) sub = (take (length sub) (c # cs) = sub \<or> Contains cs sub)"

definition isTransientI2C :: "bus_error \<Rightarrow> bool" where
  "isTransientI2C e =
     (case e of BusError msg \<Rightarrow>
        (let s = map toLower msg in
         Contains s ''remote i/o error'' \<or> Contains s ''input/output error'' \<or>
         Contains s ''eremoteio'' \<or> Contains s ''eio''))"

definition enforceMinGap :: "'a adc_dev_scheme \<Rightarrow> duration \<Rightarrow> world \<Rightarrow> world" where
  "enforceMinGap d minGap w =
     (case lastXferAt d of
        None \<Rightarrow> w
      | Some t \<Rightarrow>
          (let elapsed = clock w - t in
           if elapsed < minGap then Sleep (minGap - elapsed) w else w))"

text \<open>
  \<^verbatim>\<open>adcI2C24ToCode\<close> indexes \<open>b[0]\<close>, \<open>b[1]\<close>, \<open>b[2]\<close>: on a shorter slice Go
  panics, which is \<open>None\<close> here. The result is the \<^verbatim>\<open>int32\<close> with the bits of \<open>u32\<close>.
\<close>

definition adcI2C24ToCode :: "byte list \<Rightarrow> 32 word option" where
  "adcI2C24ToCode b =
     (if length b < 3 then None
      else
        (let u32 = (push_bit 24 (ucast (b ! 0)) OR push_bit 16 (ucast (b ! 1)) OR
                    push_bit 8 (ucast (b ! 2)) :: 32 word);
             u32 = drop_bit 2 u32;
             u32 = u32 AND 0x3FFFFFFF
         in Some u32))"

definition adcCodeToVolts :: "32 word \<Rightarrow> real \<Rightarrow> real" where
  "adcCodeToVolts code vref =
     (let signed = real_of_int (sint code - adcOffsetBinaryMid)
      in (signed / adcScale) * vref)"

type_synonym sample = "real \<times> byte list \<times> 32 word"

text \<open>
  The retry loop of \<^verbatim>\<open>readObservedMV\<close>, over the attempts still to make
  (\<^verbatim>\<open>for attempt := 1; attempt <= 2; attempt++\<close>), and the statement after the loop.
\<close>

fun readAttempts ::
  "nat list \<Rightarrow> adc_error option \<Rightarrow> 'a adc_dev_scheme \<Rightarrow> world \<Rightarrow>
   (adc_error + sample) \<times> 'a adc_dev_scheme \<times> world" where
  "readAttempts [] lastErr d w =
     (case lastErr of None \<Rightarrow> (Inr (0, [], 0), d, w) | Some e \<Rightarrow> (Inl e, d, w))"
| "readAttempts (attempt # rest) lastErr d w =
     (let d1 = d\<lparr>lastXferAt := Some (clock w)\<rparr>;
          (r, w1) = ReadBytes 3 w
      in case r of
           Inl e \<Rightarrow>
             if attempt = 1 \<and> isTransientI2C e
             then readAttempts rest (Some (Bus e)) d1 (Sleep retryDelay w1)
             else (Inl (Bus e), d1, w1)
         | Inr payload \<Rightarrow>
             if length payload \<noteq> 3 then
               (if attempt = 1
                then readAttempts rest (Some (ShortRead payload)) d1 (Sleep (10 * Millisecond) w1)
                else (Inl (ShortRead payload), d1, w1))
             else if payload ! 0 = 0xFF \<and> payload ! 1 = 0xFF \<and> payload ! 2 = 0xFF then
               (if attempt = 1
                then readAttempts rest (Some (AllFF payload)) d1 (Sleep (10 * Millisecond) w1)
                else (Inl (AllFF payload), d1, w1))
             else
               (case adcI2C24ToCode payload of
                  None \<Rightarrow> (Inl IndexOutOfRange, d1, w1)
                | Some code \<Rightarrow>
                    (let v = adcCodeToVolts code (vrefV d1);
                         mv = v * 1000;
                         d2 = d1\<lparr>lastSampleAt := Some (clock w1), lastMV := mv,
                                lastRaw := payload, lastCode := code\<rparr>
                     in (Inr (mv, payload, code), d2, Sleep settleAfterRead w1))))"

definition readObservedMV ::
  "'a adc_dev_scheme \<Rightarrow> world \<Rightarrow> (adc_error + sample) \<times> 'a adc_dev_scheme \<times> world" where
  "readObservedMV d w =
     (if lastSampleAt d \<noteq> None \<and> clock w - the (lastSampleAt d) < cacheMaxAge
      then (Inr (lastMV d, lastRaw d, lastCode d), d, w)
      else readAttempts [1, 2] None d (enforceMinGap d minI2CGap w))"

subsection \<open>ORP pin\<close>

definition orp_SetTemperatureC :: "AliExpressORP \<Rightarrow> real \<Rightarrow> AliExpressORP" where
  "orp_SetTemperatureC d tC = d"

definition orp_Value :: "AliExpressORP \<Rightarrow> world \<Rightarrow> (adc_error + real) \<times> AliExpressORP \<times> world" where
  "orp_Value d w =
     (case readObservedMV d w of
        (Inl e, d', w') \<Rightarrow> (Inl e, d', w')
      | (Inr (mv, raw, code), d', w') \<Rightarrow> (Inr (mv + offset d'), d', w'))"

definition orp_Measure :: "AliExpressORP \<Rightarrow> world \<Rightarrow> (adc_error + real) \<times> AliExpressORP \<times> world" where
  "orp_Measure d w = orp_Value d w"

text \<open>\<^verbatim>\<open>Snapshot\<close>, by the \<^verbatim>\<open>Value\<close> field of the snapshot it returns.\<close>

definition orp_Snapshot :: "AliExpressORP \<Rightarrow> world \<Rightarrow> (adc_error + real) \<times> AliExpressORP \<times> world" where
  "orp_Snapshot d w =
     (case readObservedMV d w of
        (Inl e, d', w') \<Rightarrow> (Inl e, d', w')
      | (Inr (mv, raw, code), d', w') \<Rightarrow> (Inr (mv + offset d'), d', w'))"

subsection \<open>pH driver\<close>

definition idealSlope25C :: real where "idealSlope25C = 5916 / 100"
definition refTempK25C :: real where "refTempK25C = 29815 / 100"

definition aph_SetTemperatureC :: "AliExpressPH \<Rightarrow> time \<Rightarrow> real \<Rightarrow> AliExpressPH" where
  "aph_SetTemperatureC d now tC = d\<lparr>ph_tempC := tC, ph_tempUpdatedAt := Some now\<rparr>"

definition slope25C :: "AliExpressPH \<Rightarrow> real" where
  "slope25C d =
     (if slopeOverride d \<noteq> 0 then slopeOverride d
      else if ph4mV d \<noteq> 0 then (ph4mV d - ph7mV d) / (4 - 7)
      else if ph10mV d \<noteq> 0 then (ph10mV d - ph7mV d) / (10 - 7)
      else - idealSlope25C)"

definition slopeAtTemp :: "AliExpressPH \<Rightarrow> real \<Rightarrow> real \<times> bool \<times> string" where
  "slopeAtTemp d slope25 =
     (if \<not> doTempComp d then (slope25, False, ''disabled by configuration'')
      else
        (let tk = ph_tempC d + 27315 / 100 in
         if tk \<le> 0 then (slope25, False, ''invalid temperature; using 25C slope'')
         else (slope25 * (tk / refTempK25C), True, [])))"

text \<open>
  \<^verbatim>\<open>mvToPH\<close> returns the pH and the slope used. Of its guard
  \<^verbatim>\<open>slope == 0 || IsNaN(slope) || IsInf(slope, 0)\<close> the first disjunct is the one a real
  number can meet.
\<close>

definition mvToPH :: "AliExpressPH \<Rightarrow> real \<Rightarrow> real \<times> real" where
  "mvToPH d mv =
     (let s25 = slope25C d;
          slope = fst (slopeAtTemp d s25);
          slope = (if slope = 0 then - idealSlope25C else slope);
          ph = 7 + ((mv - ph7mV d) / slope)
      in (ph, slope))"

definition aph_Value :: "AliExpressPH \<Rightarrow> world \<Rightarrow> (adc_error + real) \<times> AliExpressPH \<times> world" where
  "aph_Value d w =
     (case readObservedMV d w of
        (Inl e, d', w') \<Rightarrow> (Inl e, d', w')
      | (Inr (mv, raw, code), d', w') \<Rightarrow>
          (let ph = fst (mvToPH d' mv);
               ph = (if ph < 0 then 0 else ph);
               ph = (if ph > 14 then 14 else ph)
           in (Inr ph, d', w')))"



section \<open>ADS1115 TDS driver (ads1115tds)\<close>

definition regConversion :: byte where "regConversion = 0x00"
definition regConfig :: byte where "regConfig = 0x01"

definition configOsSingle :: "16 word" where "configOsSingle = 0x8000"
definition configModeSingle :: "16 word" where "configModeSingle = 0x0100"
definition configDataRate860 :: "16 word" where "configDataRate860 = 0x00E0"
definition configComparatorModeTraditional :: "16 word" where "configComparatorModeTraditional = 0x0000"
definition configComparitorNonLatching :: "16 word" where "configComparitorNonLatching = 0x0000"
definition configComparitorPolarityActiveLow :: "16 word" where "configComparitorPolarityActiveLow = 0x0000"
definition configComparitorQueueNone :: "16 word" where "configComparitorQueueNone = 0x0003"

definition configGainTwoThirds :: "16 word" where "configGainTwoThirds = 0x0000"
definition configGainOne :: "16 word" where "configGainOne = 0x0200"
definition configGainTwo :: "16 word" where "configGainTwo = 0x0400"
definition configGainFour :: "16 word" where "configGainFour = 0x0600"
definition configGainEight :: "16 word" where "configGainEight = 0x0800"
definition configGainSixteen :: "16 word" where "configGainSixteen = 0x0A00"

definition fixedVref :: real where "fixedVref = 33 / 10"
definition convTimeout :: duration where "convTimeout = 50 * Millisecond"
definition convPollWait :: duration where "convPollWait = 200 * Microsecond"

text \<open>The channel of the register-protocol driver (\<^verbatim>\<open>tdsChannel\<close> beside \<^verbatim>\<open>performConversion\<close>).\<close>

record tdsChannel =
  mux :: "16 word"
  gainConfig :: "16 word"
  tdsK :: real
  tdsOffset :: real
  delay :: duration

datatype ads_error =
    WriteConfig bus_error
  | ReadConfig bus_error
  | ConversionTimeout "16 word"
  | ReadConversion bus_error
  | UnknownGain "16 word"

definition be16 :: "byte list \<Rightarrow> 16 word" where
  "be16 b = push_bit 8 (ucast (b ! 0)) OR ucast (b ! 1)"

text \<open>
  The polling loop of \<^verbatim>\<open>performConversion\<close>: \<open>None\<close> is the \<^verbatim>\<open>break\<close> on the ready
  bit, \<open>Some e\<close> a return from inside the loop. It terminates because every turn sleeps
  \<open>convPollWait\<close> and the deadline is fixed.
\<close>

function pollLoop :: "time \<Rightarrow> world \<Rightarrow> ads_error option \<times> world" where
  "pollLoop deadline w =
     (case fst (ReadFromReg regConfig 2 w) of
        Inl e \<Rightarrow> (Some (ReadConfig e), snd (ReadFromReg regConfig 2 w))
      | Inr cfg \<Rightarrow>
          if be16 cfg AND configOsSingle \<noteq> 0 then (None, snd (ReadFromReg regConfig 2 w))
          else if clock (snd (ReadFromReg regConfig 2 w)) > deadline
          then (Some (ConversionTimeout (be16 cfg)), snd (ReadFromReg regConfig 2 w))
          else pollLoop deadline (Sleep convPollWait (snd (ReadFromReg regConfig 2 w))))"
  by pat_completeness auto

termination pollLoop
proof (relation "measure (\<lambda>(deadline, w). nat (deadline + 1 - clock w))")
  show "wf (measure (\<lambda>(deadline, w). nat (deadline + 1 - clock w)))" by simp
next
  fix deadline :: time and w :: world
  assume "\<not> deadline < clock (snd (ReadFromReg regConfig 2 w))"
  moreover have "clock w \<le> clock (snd (ReadFromReg regConfig 2 w))"
    by (simp add: ReadFromReg_def transact_def split: prod.splits sum.splits)
  ultimately show "((deadline, Sleep convPollWait (snd (ReadFromReg regConfig 2 w))), (deadline, w))
     \<in> measure (\<lambda>(deadline, w). nat (deadline + 1 - clock w))"
    by (simp add: Sleep_def convPollWait_def Microsecond_def)
qed

declare pollLoop.simps [simp del]

definition performConversion :: "tdsChannel \<Rightarrow> world \<Rightarrow> (ads_error + 16 word) \<times> world" where
  "performConversion c w =
     (let config = (configOsSingle OR configModeSingle OR configComparatorModeTraditional OR
                    configComparitorNonLatching OR configComparitorPolarityActiveLow OR
                    configComparitorQueueNone OR mux c OR gainConfig c OR configDataRate860);
          buf = [ucast (drop_bit 8 config), ucast config];
          (werr, w1) = WriteToReg regConfig buf w
      in case werr of
           Some e \<Rightarrow> (Inl (WriteConfig e), w1)
         | None \<Rightarrow>
             (let w2 = (if delay c > 0 then Sleep (delay c) w1 else w1);
                  deadline = clock w2 + convTimeout;
                  (perr, w3) = pollLoop deadline w2
              in case perr of
                   Some e \<Rightarrow> (Inl e, w3)
                 | None \<Rightarrow>
                     (case ReadFromReg regConversion 2 w3 of
                        (Inl e, w4) \<Rightarrow> (Inl (ReadConversion e), w4)
                      | (Inr b, w4) \<Rightarrow> (Inr (be16 b), w4))))"

definition fsVoltsForGain :: "16 word \<Rightarrow> real option" where
  "fsVoltsForGain gain =
     (if gain = configGainTwoThirds then Some (6144 / 1000)
      else if gain = configGainOne then Some (4096 / 1000)
      else if gain = configGainTwo then Some (2048 / 1000)
      else if gain = configGainFour then Some (1024 / 1000)
      else if gain = configGainEight then Some (512 / 1000)
      else if gain = configGainSixteen then Some (256 / 1000)
      else None)"

text \<open>\<open>raw\<close> is the \<^verbatim>\<open>int16\<close> with the bits read; \<open>sint\<close> is its value.\<close>

definition rawToVolts :: "tdsChannel \<Rightarrow> 16 word \<Rightarrow> ads_error + real" where
  "rawToVolts c raw =
     (case fsVoltsForGain (gainConfig c) of
        None \<Rightarrow> Inl (UnknownGain (gainConfig c))
      | Some fs \<Rightarrow>
          (let volts = (real_of_int (sint raw) / 32768) * fs;
               volts = (if volts > fixedVref then fixedVref else volts);
               volts = (if volts < 0 then 0 else volts)
           in Inr volts))"

definition measureAll :: "tdsChannel \<Rightarrow> world \<Rightarrow> (ads_error + 16 word \<times> real \<times> real) \<times> world" where
  "measureAll c w =
     (case performConversion c w of
        (Inl e, w') \<Rightarrow> (Inl e, w')
      | (Inr raw, w') \<Rightarrow>
          (case rawToVolts c raw of
             Inl e \<Rightarrow> (Inl e, w')
           | Inr volts \<Rightarrow> (Inr (raw, volts, (tdsK c * volts) + tdsOffset c), w')))"

definition tds_Measure :: "tdsChannel \<Rightarrow> world \<Rightarrow> (ads_error + real) \<times> world" where
  "tds_Measure c w =
     (case measureAll c w of
        (Inl e, w') \<Rightarrow> (Inl e, w')
      | (Inr (raw, volts, out), w') \<Rightarrow> (Inr out, w'))"

definition tds_Value :: "tdsChannel \<Rightarrow> world \<Rightarrow> (ads_error + real) \<times> world" where
  "tds_Value c w = tds_Measure c w"

text \<open>
  The temperature fields of \<^verbatim>\<open>tdsChannel\<close> in ads1115tds/driver.go, with
  \<^verbatim>\<open>newTdsChannel\<close>, \<^verbatim>\<open>SetTemperatureC\<close>, \<^verbatim>\<open>getTemperatureC\<close>, \<^verbatim>\<open>tempNormalize\<close> and
  the normalisation step of \<^verbatim>\<open>measureAllDebug\<close> (from \<open>voltsRaw\<close> to \<open>voltsRef\<close>).
\<close>

record tdsTemp =
  tds_alphaPerC :: real
  tds_doTempComp :: bool
  tds_refTempC :: real
  tds_tempC :: real
  tds_tempUpdatedAt :: "time option"

definition newTdsChannel :: "real \<Rightarrow> bool \<Rightarrow> real \<Rightarrow> tdsTemp" where
  "newTdsChannel alpha doTC refT =
     \<lparr>tds_alphaPerC = alpha, tds_doTempComp = doTC, tds_refTempC = refT,
      tds_tempC = refT, tds_tempUpdatedAt = None\<rparr>"

definition tds_SetTemperatureC :: "tdsTemp \<Rightarrow> time \<Rightarrow> real \<Rightarrow> tdsTemp" where
  "tds_SetTemperatureC c now tC = c\<lparr>tds_tempC := tC, tds_tempUpdatedAt := Some now\<rparr>"

definition getTemperatureC :: "tdsTemp \<Rightarrow> real \<times> bool \<times> time option" where
  "getTemperatureC c =
     (if tds_tempUpdatedAt c \<noteq> None then (tds_tempC c, True, tds_tempUpdatedAt c)
      else (tds_refTempC c, False, None))"

definition tempNormalize :: "real \<Rightarrow> real \<Rightarrow> real \<Rightarrow> real \<Rightarrow> real" where
  "tempNormalize volts tC alpha refT = volts / (1 + alpha * (tC - refT))"

definition tds_voltsRef :: "tdsTemp \<Rightarrow> real \<Rightarrow> real" where
  "tds_voltsRef c voltsRaw =
     (let (temp, injected, updatedAt) = getTemperatureC c in
      if tds_doTempComp c then tempNormalize voltsRaw temp (tds_alphaPerC c) (tds_refTempC c)
      else voltsRaw)"

section \<open>Notions of the specification\<close>

text \<open>
  The specification's two-point linear map through \<open>(x1, y1)\<close> and \<open>(x2, y2)\<close>, and its
  3-point piecewise calibration: the segment is chosen by comparing the observed input
  with the middle anchor's observed reading. They are compared with \<open>applyCalibration\<close>.
\<close>

definition spec_linear_map :: "real \<Rightarrow> real \<Rightarrow> real \<Rightarrow> real \<Rightarrow> real \<Rightarrow> real" where
  "spec_linear_map x x1 x2 y1 y2 = y1 + (x - x1) / (x2 - x1) * (y2 - y1)"

definition spec_threePoint :: "Driver \<Rightarrow> real \<Rightarrow> real" where
  "spec_threePoint d x =
     (if x \<le> obs7 d then spec_linear_map x (obs4 d) (obs7 d) 4 7
      else spec_linear_map x (obs7 d) (obs10 d) 7 10)"


text \<open>
  The time that has passed since the polling of the ADS1115 began when its \<open>j\<close>-th poll
  (counted from 0) returns: the latencies of the polls so far and the sleeps between
  them. \<open>n\<close> is the number of bus transactions issued before the first poll.
\<close>

definition pollElapsed :: "world \<Rightarrow> nat \<Rightarrow> nat \<Rightarrow> duration" where
  "pollElapsed w n j = (\<Sum>i\<le>j. int (fst (bus w (n + i)))) + int j * convPollWait"

text \<open>
  Histories of the temperature state of the conductivity driver with the validity flag
  (robotank\_conductivity/driver.go): the calls that touch it are
  \<^verbatim>\<open>SetTemperatureC\<close> (an injection) and \<^verbatim>\<open>tempCompToRef\<close> (a normalisation request),
  each at the time the clock shows when it is made.
\<close>

datatype temp_op = Inject real | Normalize real

definition temp_step :: "RoboTankConductivity \<Rightarrow> time \<times> temp_op \<Rightarrow> RoboTankConductivity" where
  "temp_step d ev =
     (case ev of
        (now, Inject tC) \<Rightarrow> SetTemperatureC d now tC
      | (now, Normalize us) \<Rightarrow> snd (tempCompToRef d now us))"

definition temp_run :: "RoboTankConductivity \<Rightarrow> (time \<times> temp_op) list \<Rightarrow> RoboTankConductivity" where
  "temp_run d evs = foldl temp_step d evs"

fun is_Normalize :: "time \<times> temp_op \<Rightarrow> bool" where
  "is_Normalize (now, Normalize us) = True"
| "is_Normalize (now, Inject tC) = False"


section \<open>Calibration of the Robo-Tank pH driver\<close>

lemma enabledAnchors_three:
  "obs4 d \<noteq> -1 \<Longrightarrow> obs7 d \<noteq> -1 \<Longrightarrow> obs10 d \<noteq> -1 \<Longrightarrow>
   enabledAnchors d = [\<lparr>truePH = 4, obsPH = obs4 d\<rparr>, \<lparr>truePH = 7, obsPH = obs7 d\<rparr>,
                       \<lparr>truePH = 10, obsPH = obs10 d\<rparr>]"
  by (simp add: enabledAnchors_def truePH4_def truePH7_def truePH10_def)



lemma clampPH_id: "lo \<le> v \<Longrightarrow> v \<le> hi \<Longrightarrow> clampPH v lo hi = (v, False)"
  by (simp add: clampPH_def)



lemma rawClamp_id: "-1 \<le> x \<Longrightarrow> x \<le> 15 \<Longrightarrow> rawClamp x = x"
  by (simp add: rawClamp_def Let_def)

lemma rawClamp_cmp: "-1 \<le> m \<Longrightarrow> m < 15 \<Longrightarrow> (rawClamp x \<le> m) = (x \<le> m)"
  by (auto simp add: rawClamp_def Let_def)

lemma linearMapDbg_spec:
  "1 / 10 ^ 9 \<le> \<bar>x2 - x1\<bar> \<Longrightarrow> dbg_y (linearMapDbg x x1 x2 y1 y2) = spec_linear_map x x1 x2 y1 y2"
  by (simp add: linearMapDbg_def spec_linear_map_def Let_def)

lemma linearMapDbg_degenerate:
  "x1 = x2 \<Longrightarrow> linearMapDbg x x1 x2 y1 y2 = \<lparr>dbg_den = 0, dbg_t = 0, dbg_y = y1\<rparr>"
  by (simp add: linearMapDbg_def Let_def)



lemma two_anchor_values:
  assumes "enabledAnchors d = [a0, a1]"
  shows "(truePH a0 = 4 \<or> truePH a0 = 7) \<and> truePH a0 < truePH a1"
  using assms
  by (auto simp add: enabledAnchors_def truePH4_def truePH7_def truePH10_def split: if_splits)

text \<open>
  Against C1 as it is written: with the anchors observed at their true values, the input
  20 lies above the middle anchor, the high segment's linear map gives 20, and the driver
  returns 14 (the raw reading is clamped to 15 and the result to 14).
\<close>

theorem threePoint_unclamped_counterexample:
  "applyCalibration \<lparr>obs4 = 4, obs7 = 7, obs10 = 10\<rparr> 20 \<noteq>
   spec_threePoint \<lparr>obs4 = 4, obs7 = 7, obs10 = 10\<rparr> 20"
  by (simp add: applyCalibration_def enabledAnchors_def truePH4_def truePH7_def truePH10_def
       rawClamp_def linearMapDbg_def clampPH_def Let_def spec_threePoint_def spec_linear_map_def)

text \<open>
  C1 (as amended). In the 3-point calibration (the anchors for pH 4, 7 and 10 all enabled)
  a finite observed input is first clamped to \<open>[-1, 15]\<close>. The segment is chosen solely
  by comparing that clamped input with the observed reading of the middle anchor; for a
  middle anchor in the range \<open>[0, 14]\<close> that the factory accepts, this is the comparison
  of the input itself. At or below the middle reading the map through \<open>(obs4, 4)\<close> and
  \<open>(obs7, 7)\<close> is used, otherwise the map through \<open>(obs7, 7)\<close> and \<open>(obs10, 10)\<close>, and
  the result is clamped to \<open>[0, 14]\<close>. A segment whose two observed readings are less than
  \<open>1e-9\<close> apart gives its lower true value (4 or 7) instead. For an input in
  \<open>[-1, 15]\<close>, observed readings at least \<open>1e-9\<close> apart in both segments and a
  mapped value in \<open>[0, 14]\<close>, the output is the specification's piecewise linear map.
\<close>

theorem threePoint_segment:
  assumes "obs4 d \<noteq> -1" and "obs7 d \<noteq> -1" and "obs10 d \<noteq> -1"
  shows "applyCalibration d x =
           fst (clampPH (dbg_y (if rawClamp x \<le> obs7 d
                                then linearMapDbg (rawClamp x) (obs4 d) (obs7 d) 4 7
                                else linearMapDbg (rawClamp x) (obs7 d) (obs10 d) 7 10)) 0 14)
         \<and> (0 \<le> obs7 d \<and> obs7 d \<le> 14 \<longrightarrow> (rawClamp x \<le> obs7 d \<longleftrightarrow> x \<le> obs7 d))
         \<and> (-1 \<le> x \<and> x \<le> 15 \<and> 1 / 10 ^ 9 \<le> \<bar>obs7 d - obs4 d\<bar> \<and> 1 / 10 ^ 9 \<le> \<bar>obs10 d - obs7 d\<bar>
              \<and> 0 \<le> spec_threePoint d x \<and> spec_threePoint d x \<le> 14
            \<longrightarrow> applyCalibration d x = spec_threePoint d x)
         \<and> (rawClamp x \<le> obs7 d \<and> \<bar>obs7 d - obs4 d\<bar> < 1 / 10 ^ 9 \<longrightarrow> applyCalibration d x = 4)
         \<and> (\<not> rawClamp x \<le> obs7 d \<and> \<bar>obs10 d - obs7 d\<bar> < 1 / 10 ^ 9 \<longrightarrow> applyCalibration d x = 7)"
proof -
  have eq: "applyCalibration d x =
           fst (clampPH (dbg_y (if rawClamp x \<le> obs7 d
                                then linearMapDbg (rawClamp x) (obs4 d) (obs7 d) 4 7
                                else linearMapDbg (rawClamp x) (obs7 d) (obs10 d) 7 10)) 0 14)"
    using assms by (simp add: applyCalibration_def enabledAnchors_three Let_def)
  have cmp: "0 \<le> obs7 d \<and> obs7 d \<le> 14 \<longrightarrow> (rawClamp x \<le> obs7 d \<longleftrightarrow> x \<le> obs7 d)"
    by (simp add: rawClamp_cmp)
  have sp: "applyCalibration d x = spec_threePoint d x"
    if "-1 \<le> x" "x \<le> 15" "1 / 10 ^ 9 \<le> \<bar>obs7 d - obs4 d\<bar>" "1 / 10 ^ 9 \<le> \<bar>obs10 d - obs7 d\<bar>"
       "0 \<le> spec_threePoint d x" "spec_threePoint d x \<le> 14"
  proof -
    have r: "rawClamp x = x" using that by (simp add: rawClamp_id)
    have y: "dbg_y (if x \<le> obs7 d then linearMapDbg x (obs4 d) (obs7 d) 4 7
                 else linearMapDbg x (obs7 d) (obs10 d) 7 10) = spec_threePoint d x"
      using that(3,4) by (simp add: spec_threePoint_def linearMapDbg_spec)
    have "applyCalibration d x = fst (clampPH (spec_threePoint d x) 0 14)"
      by (simp only: eq r y)
    also have "\<dots> = spec_threePoint d x"
      using that(5,6) by (simp add: clampPH_id)
    finally show ?thesis .
  qed
  have lo: "applyCalibration d x = 4"
    if "rawClamp x \<le> obs7 d" "\<bar>obs7 d - obs4 d\<bar> < 1 / 10 ^ 9"
  proof -
    have "dbg_y (linearMapDbg (rawClamp x) (obs4 d) (obs7 d) 4 7) = 4"
      using that(2) by (simp add: linearMapDbg_def)
    with eq that(1) show ?thesis by (simp add: clampPH_def)
  qed
  have hi: "applyCalibration d x = 7"
    if "\<not> rawClamp x \<le> obs7 d" "\<bar>obs10 d - obs7 d\<bar> < 1 / 10 ^ 9"
  proof -
    have "dbg_y (linearMapDbg (rawClamp x) (obs7 d) (obs10 d) 7 10) = 7"
      using that(2) by (simp add: linearMapDbg_def)
    with eq that(1) show ?thesis by (simp add: clampPH_def)
  qed
  from eq cmp sp lo hi show ?thesis by blast
qed

text \<open>
  The theorem at the observed readings 3, 6 and 12, where the low segment is \<open>x + 1\<close> and
  the high segment \<open>7 + (x - 6) / 2\<close>: the inputs 4 and 6 (at the middle reading) take the
  low segment, the input 7 takes the high one (the low segment would give 8).
\<close>

theorem threePoint_segment_witness:
  "obs4 \<lparr>obs4 = 3, obs7 = 6, obs10 = 12\<rparr> \<noteq> -1 \<and>
   obs7 \<lparr>obs4 = 3, obs7 = 6, obs10 = 12\<rparr> \<noteq> -1 \<and>
   obs10 \<lparr>obs4 = 3, obs7 = 6, obs10 = 12\<rparr> \<noteq> -1 \<and>
   applyCalibration \<lparr>obs4 = 3, obs7 = 6, obs10 = 12\<rparr> 4 = 5 \<and>
   applyCalibration \<lparr>obs4 = 3, obs7 = 6, obs10 = 12\<rparr> 6 = 7 \<and>
   applyCalibration \<lparr>obs4 = 3, obs7 = 6, obs10 = 12\<rparr> 7 = 15 / 2 \<and>
   spec_linear_map 7 3 6 4 7 = 8"
proof -
  let ?d = "\<lparr>obs4 = 3, obs7 = 6, obs10 = 12\<rparr>"
  have h: "obs4 ?d \<noteq> -1" "obs7 ?d \<noteq> -1" "obs10 ?d \<noteq> -1" by simp_all
  have s4: "spec_threePoint ?d 4 = 5" and s6: "spec_threePoint ?d 6 = 7"
    and s7: "spec_threePoint ?d 7 = 15 / 2" and o: "spec_linear_map 7 3 6 4 7 = 8"
    by (simp_all add: spec_threePoint_def spec_linear_map_def)
  note sp = threePoint_segment [OF h, THEN conjunct2, THEN conjunct2, THEN conjunct1, rule_format]
  have "applyCalibration ?d 4 = spec_threePoint ?d 4"
    by (rule sp) (simp add: s4)
  moreover have "applyCalibration ?d 6 = spec_threePoint ?d 6"
    by (rule sp) (simp add: s6)
  moreover have "applyCalibration ?d 7 = spec_threePoint ?d 7"
    by (rule sp) (simp add: s7)
  ultimately show ?thesis by (simp add: s4 s6 s7 o)
qed

text \<open>
  C6. When the two anchors of a 2-point calibration have equal observed values,
  \<open>linearMapDbg\<close> takes its degenerate branch for every input: it returns the lower true
  value with the zero-slope record (\<open>den = 0\<close>, \<open>t = 0\<close>), not the branch that divides,
  and the calibrated output is that lower true value.
\<close>

theorem twoPoint_degenerate:
  assumes "enabledAnchors d = [a0, a1]" and "obsPH a0 = obsPH a1"
  shows "linearMapDbg (rawClamp raw) (obsPH a0) (obsPH a1) (truePH a0) (truePH a1)
           = \<lparr>dbg_den = 0, dbg_t = 0, dbg_y = truePH a0\<rparr>
         \<and> applyCalibration d raw = truePH a0
         \<and> truePH a0 < truePH a1"
proof -
  have deg: "linearMapDbg (rawClamp raw) (obsPH a0) (obsPH a1) (truePH a0) (truePH a1)
           = \<lparr>dbg_den = 0, dbg_t = 0, dbg_y = truePH a0\<rparr>"
    using assms(2) by (rule linearMapDbg_degenerate)
  have tv: "(truePH a0 = 4 \<or> truePH a0 = 7) \<and> truePH a0 < truePH a1"
    using assms(1) by (rule two_anchor_values)
  have "applyCalibration d raw = fst (clampPH (truePH a0) 0 14)"
    using assms(1) deg by (simp add: applyCalibration_def)
  also have "\<dots> = truePH a0"
    using tv by (auto simp add: clampPH_def)
  finally show ?thesis using deg tv by simp
qed

text \<open>The theorem for the anchors pH 4 and pH 7 both observed at 5, and the input 9.\<close>

theorem twoPoint_degenerate_witness:
  "enabledAnchors \<lparr>obs4 = 5, obs7 = 5, obs10 = -1\<rparr>
     = [\<lparr>truePH = 4, obsPH = 5\<rparr>, \<lparr>truePH = 7, obsPH = 5\<rparr>]
   \<and> applyCalibration \<lparr>obs4 = 5, obs7 = 5, obs10 = -1\<rparr> 9 = 4"
proof -
  let ?d = "\<lparr>obs4 = 5, obs7 = 5, obs10 = -1\<rparr>"
  let ?a0 = "\<lparr>truePH = 4, obsPH = 5\<rparr>" and ?a1 = "\<lparr>truePH = 7, obsPH = 5\<rparr>"
  have e: "enabledAnchors ?d = [?a0, ?a1]"
    by (simp add: enabledAnchors_def truePH4_def truePH7_def)
  have o: "obsPH ?a0 = obsPH ?a1" by simp
  from twoPoint_degenerate [OF e o, of 9] have "applyCalibration ?d 9 = truePH ?a0" by blast
  with e show ?thesis by simp
qed





lemma rawClampF_NaN: "rawClampF NaN = NaN"
  by (simp add: rawClampF_def Let_def)











section \<open>Conductivity mapping\<close>



section \<open>Temperature compensation\<close>

lemma tempCompToRef_invalid: "\<not> tempValid d \<Longrightarrow> tempCompToRef d now us = (us, d)"
  by (simp add: tempCompToRef_def)

lemma tempCompToRef_unset:
  "tempValid d \<Longrightarrow> tempUpdatedAt d = None \<Longrightarrow>
   tempCompToRef d now us = (us, d\<lparr>tempValid := False, tempC := refTempC d\<rparr>)"
  by (simp add: tempCompToRef_def)

lemma tempCompToRef_stale:
  "tempValid d \<Longrightarrow> tempUpdatedAt d = Some t \<Longrightarrow> now - t > tempStaleAfter \<Longrightarrow>
   tempCompToRef d now us = (us, d\<lparr>tempValid := False, tempC := refTempC d\<rparr>)"
  by (simp add: tempCompToRef_def)

lemma tempCompToRef_noop:
  assumes "\<not> tempValid d \<or> tempUpdatedAt d = None \<or> now - the (tempUpdatedAt d) > tempStaleAfter"
  shows "fst (tempCompToRef d now us) = us"
  using assms by (auto simp add: tempCompToRef_def Let_def split: option.splits)

lemma tempCompToRef_downgrade:
  assumes "tempUpdatedAt d = None \<or> now - the (tempUpdatedAt d) > tempStaleAfter"
  shows "\<not> tempValid (snd (tempCompToRef d now us))"
  using assms by (auto simp add: tempCompToRef_def Let_def split: option.splits)

lemma temp_run_Nil: "temp_run d [] = d"
  by (simp add: temp_run_def)

lemma temp_run_Cons: "temp_run d (ev # evs) = temp_run (temp_step d ev) evs"
  by (simp add: temp_run_def)

lemma temp_run_append: "temp_run d (evs @ evs') = temp_run (temp_run d evs) evs'"
  by (simp add: temp_run_def)

lemma temp_step_Normalize_invalid:
  "is_Normalize ev \<Longrightarrow> \<not> tempValid d \<Longrightarrow> temp_step d ev = d"
  by (cases ev rule: is_Normalize.cases) (simp_all add: temp_step_def tempCompToRef_invalid)

lemma temp_run_Normalize_invalid:
  "list_all is_Normalize evs \<Longrightarrow> \<not> tempValid d \<Longrightarrow> temp_run d evs = d"
proof (induction evs)
  case Nil
  show ?case by (rule temp_run_Nil)
next
  case (Cons ev evs)
  then show ?case by (simp add: temp_run_Cons temp_step_Normalize_invalid)
qed

lemma SetTemperatureC_sentinel:
  "tC < 0 \<Longrightarrow> \<not> tempValid (SetTemperatureC d now tC) \<and>
     tempC (SetTemperatureC d now tC) = refTempC (SetTemperatureC d now tC) \<and>
     tempUpdatedAt (SetTemperatureC d now tC) = Some now"
  by (simp add: SetTemperatureC_def Let_def)

lemma NewDriver_state:
  "NewDriver r s al = Inr d0 \<Longrightarrow>
   \<not> tempValid d0 \<and> tempC d0 = refTempC d0 \<and> tempUpdatedAt d0 = None \<and> refUS d0 = fixedRefUS"
  by (auto simp add: NewDriver_def split: if_splits)

text \<open>
  Against C3 as it is written: the AliExpress pH driver, with compensation enabled and
  35 degrees injected at time 0, still scales its slope for a reading taken more than
  two minutes later, so the reported pH differs from the uncompensated one; and the
  conductivity driver with DoTempComp, with 30 degrees injected at time 0, still divides
  a value of 53000 by 1.095 three minutes later.
\<close>

theorem stale_compensation_counterexample:
  "tempStaleAfter < clock \<lparr>clock = 180000000001, bus = (\<lambda>k. (0, Inr [0x81, 0, 0])), trace = []\<rparr> - 0
   \<and> fst (aph_Value
        (aph_SetTemperatureC
          \<lparr>vrefV = 25 / 10, lastXferAt = None, lastSampleAt = None, lastMV = 0, lastRaw = [],
           lastCode = 0, ph7mV = 0, ph4mV = 0, ph10mV = 0, slopeOverride = 0,
           doTempComp = True, ph_refTempC = 25, ph_tempC = 25, ph_tempUpdatedAt = None\<rparr> 0 35)
        \<lparr>clock = 180000000001, bus = (\<lambda>k. (0, Inr [0x81, 0, 0])), trace = []\<rparr>)
     \<noteq> fst (aph_Value
        \<lparr>vrefV = 25 / 10, lastXferAt = None, lastSampleAt = None, lastMV = 0, lastRaw = [],
         lastCode = 0, ph7mV = 0, ph4mV = 0, ph10mV = 0, slopeOverride = 0,
         doTempComp = False, ph_refTempC = 25, ph_tempC = 25, ph_tempUpdatedAt = None\<rparr>
        \<lparr>clock = 180000000001, bus = (\<lambda>k. (0, Inr [0x81, 0, 0])), trace = []\<rparr>)
   \<and> tempStaleAfter < 180000000000 - 0
   \<and> tempCompToRef_dtc (SetTemperatureC_dtc (NewDriver_dtc 1000 20 25 True) 0 30) 180000000000 53000
       = 53000 / (1095 / 1000)"
  by (simp add: NewDriver_dtc_def SetTemperatureC_dtc_def tempCompToRef_dtc_def
      dtc_fixedAlphaPerC_def aph_Value_def aph_SetTemperatureC_def readObservedMV_def enforceMinGap_def
      ReadBytes_def transact_def Sleep_def settleAfterRead_def Millisecond_def Minute_def
      tempStaleAfter_def adcI2C24ToCode_def adcCodeToVolts_def adcOffsetBinaryMid_def
      adcScale_def mvToPH_def slope25C_def slopeAtTemp_def idealSlope25C_def refTempK25C_def
      Let_def)

text \<open>
  C3 (as amended). For the conductivity driver of robotank\_conductivity/driver.go (the
  version with the \<open>tempValid\<close> flag) and every measured value, temperature compensation
  is a no-op (the reported value equals the pre-compensation value) whenever the
  temperature state is invalid (never injected, or the sentinel injected), or no
  injection time is recorded, or the most recent injection is older than the 2-minute
  staleness threshold; in the last two cases the temperature state is downgraded to
  invalid and the stored temperature reset to the reference. For the other version of
  the conductivity driver (with DoTempComp) compensation is a no-op whenever it is
  disabled by configuration, or temperature has never been injected since the factory
  made the driver. For the AliExpress pH driver the slope scaling is a no-op whenever
  compensation is disabled by configuration, and for the ADS1115 TDS driver the
  normalisation is a no-op whenever compensation is disabled or temperature has never
  been injected.
\<close>

theorem tempComp_noop:
  "(\<not> tempValid d \<or> tempUpdatedAt d = None \<or> tempStaleAfter < now - the (tempUpdatedAt d) \<longrightarrow>
      fst (tempCompToRef d now us) = us \<and>
      (usFromAbsD d \<bar>u - v\<bar> = Inr us \<longrightarrow> fst (cond_Value d 0 now (Inr (u, v))) = Inr us))
   \<and> (tempValid d \<and> (tempUpdatedAt d = None \<or> tempStaleAfter < now - the (tempUpdatedAt d)) \<longrightarrow>
      \<not> tempValid (snd (tempCompToRef d now us)) \<and>
      tempC (snd (tempCompToRef d now us)) = refTempC d)
   \<and> (\<not> doTempComp a \<longrightarrow> fst (slopeAtTemp a s) = s \<and> \<not> fst (snd (slopeAtTemp a s)))
   \<and> (\<not> tds_doTempComp c \<or> tds_tempUpdatedAt c = None \<longrightarrow> tds_voltsRef c volts = volts)
   \<and> (\<not> dtc_doTempComp g \<longrightarrow> tempCompToRef_dtc g now us = us)
   \<and> tempCompToRef_dtc (NewDriver_dtc absFresh absStd refT doTC) now us = us"
proof -
  have dtc_off: "tempCompToRef_dtc g now us = us" if "\<not> dtc_doTempComp g"
    using that by (simp add: tempCompToRef_dtc_def)
  have dtc_new: "tempCompToRef_dtc (NewDriver_dtc absFresh absStd refT doTC) now us = us"
    by (simp add: tempCompToRef_dtc_def NewDriver_dtc_def)
  have noop: "fst (tempCompToRef d now us) = us"
    if "\<not> tempValid d \<or> tempUpdatedAt d = None \<or> tempStaleAfter < now - the (tempUpdatedAt d)"
    using that by (rule tempCompToRef_noop)
  have val: "fst (cond_Value d 0 now (Inr (u, v))) = Inr us"
    if "\<not> tempValid d \<or> tempUpdatedAt d = None \<or> tempStaleAfter < now - the (tempUpdatedAt d)"
      and "usFromAbsD d \<bar>u - v\<bar> = Inr us"
    using noop [OF that(1)] that(2)
    by (cases "tempCompToRef d now us") (simp add: cond_Value_def compute_def)
  have down: "\<not> tempValid (snd (tempCompToRef d now us)) \<and>
      tempC (snd (tempCompToRef d now us)) = refTempC d"
    if "tempValid d \<and> (tempUpdatedAt d = None \<or> tempStaleAfter < now - the (tempUpdatedAt d))"
    using that by (auto simp add: tempCompToRef_def Let_def split: option.splits)
  have ph: "fst (slopeAtTemp a s) = s \<and> \<not> fst (snd (slopeAtTemp a s))" if "\<not> doTempComp a"
    using that by (simp add: slopeAtTemp_def)
  have tds: "tds_voltsRef c volts = volts" if "\<not> tds_doTempComp c \<or> tds_tempUpdatedAt c = None"
    using that by (auto simp add: tds_voltsRef_def getTemperatureC_def tempNormalize_def)
  from noop val down ph tds dtc_off dtc_new show ?thesis by blast
qed

text \<open>
  The theorem at a conductivity driver (with \<open>tempValid\<close>) whose temperature of 30
  degrees was injected at time 0 and is read three minutes later, at an AliExpress pH
  driver with compensation disabled, at a TDS channel that never received a temperature,
  and at a conductivity driver with DoTempComp fresh from its factory.
\<close>

theorem tempComp_noop_witness:
  "tempStaleAfter < 180000000000 - the (tempUpdatedAt
      \<lparr>absDFresh = 1000, absDStd = 20, refUS = 53000, alphaPerC = 15 / 10000, refTempC = 25,
       tempC = 30, tempUpdatedAt = Some 0, tempValid = True\<rparr>)
   \<and> tempCompToRef
      \<lparr>absDFresh = 1000, absDStd = 20, refUS = 53000, alphaPerC = 15 / 10000, refTempC = 25,
       tempC = 30, tempUpdatedAt = Some 0, tempValid = True\<rparr> 180000000000 53000
     = (53000,
      \<lparr>absDFresh = 1000, absDStd = 20, refUS = 53000, alphaPerC = 15 / 10000, refTempC = 25,
       tempC = 25, tempUpdatedAt = Some 0, tempValid = False\<rparr>)
   \<and> fst (cond_Value
      \<lparr>absDFresh = 1000, absDStd = 20, refUS = 53000, alphaPerC = 15 / 10000, refTempC = 25,
       tempC = 30, tempUpdatedAt = Some 0, tempValid = True\<rparr> 0 180000000000 (Inr (120, 100)))
     = Inr 53000
   \<and> fst (slopeAtTemp
      \<lparr>vrefV = 25 / 10, lastXferAt = None, lastSampleAt = None, lastMV = 0, lastRaw = [],
       lastCode = 0, ph7mV = 0, ph4mV = 0, ph10mV = 0, slopeOverride = 0,
       doTempComp = False, ph_refTempC = 25, ph_tempC = 35, ph_tempUpdatedAt = Some 0\<rparr> (-59)) = -59
   \<and> tds_voltsRef (newTdsChannel (2 / 100) True 20) 1 = 1
   \<and> tempCompToRef_dtc (NewDriver_dtc 1000 20 25 True) 180000000000 53000 = 53000"
proof -
  let ?d = "\<lparr>absDFresh = 1000, absDStd = 20, refUS = 53000, alphaPerC = 15 / 10000, refTempC = 25,
       tempC = 30, tempUpdatedAt = Some 0, tempValid = True\<rparr>"
  let ?a = "\<lparr>vrefV = 25 / 10, lastXferAt = None, lastSampleAt = None, lastMV = 0, lastRaw = [],
       lastCode = 0, ph7mV = 0, ph4mV = 0, ph10mV = 0, slopeOverride = 0,
       doTempComp = False, ph_refTempC = 25, ph_tempC = 35, ph_tempUpdatedAt = Some 0\<rparr>"
  let ?c = "newTdsChannel (2 / 100) True 20"
  note th = tempComp_noop [of ?d 180000000000 53000 120 100 ?a "-59" ?c 1
      "NewDriver_dtc 1000 20 25 False" 1000 20 25 True]
  have stale: "tempStaleAfter < 180000000000 - the (tempUpdatedAt ?d)"
    by (simp add: tempStaleAfter_def Minute_def)
  have us: "usFromAbsD ?d \<bar>120 - 100\<bar> = Inr 53000"
    by (simp add: usFromAbsD_def)
  have v: "tempValid ?d" by simp
  have off: "\<not> doTempComp ?a" by simp
  have never: "\<not> tds_doTempComp ?c \<or> tds_tempUpdatedAt ?c = None"
    by (simp add: newTdsChannel_def)
  from th stale have 1: "fst (tempCompToRef ?d 180000000000 53000) = 53000" by blast
  from th stale us have 2: "fst (cond_Value ?d 0 180000000000 (Inr (120, 100))) = Inr 53000" by blast
  from th stale v have 3: "\<not> tempValid (snd (tempCompToRef ?d 180000000000 53000)) \<and>
      tempC (snd (tempCompToRef ?d 180000000000 53000)) = refTempC ?d" by blast
  from th off have 4: "fst (slopeAtTemp ?a (-59)) = -59" by blast
  from th never have 5: "tds_voltsRef ?c 1 = 1" by blast
  have 6: "snd (tempCompToRef ?d 180000000000 53000) = ?d\<lparr>tempValid := False, tempC := refTempC ?d\<rparr>"
    using stale by (simp add: tempCompToRef_def)
  from 1 6 have "tempCompToRef ?d 180000000000 53000 = (53000, ?d\<lparr>tempValid := False, tempC := refTempC ?d\<rparr>)"
    by (simp add: prod_eq_iff)
  moreover from th have "tempCompToRef_dtc (NewDriver_dtc 1000 20 25 True) 180000000000 53000 = 53000"
    by blast
  ultimately show ?thesis using stale 2 4 5 by simp
qed

text \<open>
  Against C5 as it is written: the AliExpress pH driver and the conductivity driver with
  DoTempComp hold an injected temperature too, but have no validity mark and no sentinel:
  after \<open>SetTemperatureC(-1)\<close> the stored temperature is \<open>-1\<close>, not the reference
  temperature, and compensation is still applied.
\<close>

theorem sentinel_counterexample:
  "ph_tempC (aph_SetTemperatureC
      \<lparr>vrefV = 25 / 10, lastXferAt = None, lastSampleAt = None, lastMV = 0, lastRaw = [],
       lastCode = 0, ph7mV = 0, ph4mV = 0, ph10mV = 0, slopeOverride = 0,
       doTempComp = True, ph_refTempC = 25, ph_tempC = 25, ph_tempUpdatedAt = None\<rparr> 0 (-1))
     \<noteq> ph_refTempC (aph_SetTemperatureC
      \<lparr>vrefV = 25 / 10, lastXferAt = None, lastSampleAt = None, lastMV = 0, lastRaw = [],
       lastCode = 0, ph7mV = 0, ph4mV = 0, ph10mV = 0, slopeOverride = 0,
       doTempComp = True, ph_refTempC = 25, ph_tempC = 25, ph_tempUpdatedAt = None\<rparr> 0 (-1))
   \<and> fst (snd (slopeAtTemp (aph_SetTemperatureC
      \<lparr>vrefV = 25 / 10, lastXferAt = None, lastSampleAt = None, lastMV = 0, lastRaw = [],
       lastCode = 0, ph7mV = 0, ph4mV = 0, ph10mV = 0, slopeOverride = 0,
       doTempComp = True, ph_refTempC = 25, ph_tempC = 25, ph_tempUpdatedAt = None\<rparr> 0 (-1))
      (- idealSlope25C)))
   \<and> fst (slopeAtTemp (aph_SetTemperatureC
      \<lparr>vrefV = 25 / 10, lastXferAt = None, lastSampleAt = None, lastMV = 0, lastRaw = [],
       lastCode = 0, ph7mV = 0, ph4mV = 0, ph10mV = 0, slopeOverride = 0,
       doTempComp = True, ph_refTempC = 25, ph_tempC = 25, ph_tempUpdatedAt = None\<rparr> 0 (-1))
      (- idealSlope25C)) \<noteq> - idealSlope25C
   \<and> dtc_tempC (SetTemperatureC_dtc (NewDriver_dtc 1000 20 25 True) 0 (-1)) = -1
   \<and> dtc_refTempC (SetTemperatureC_dtc (NewDriver_dtc 1000 20 25 True) 0 (-1)) = 25
   \<and> tempCompToRef_dtc (SetTemperatureC_dtc (NewDriver_dtc 1000 20 25 True) 0 (-1)) 10 53000
       = 53000 / (506 / 1000)"
  by (simp add: NewDriver_dtc_def SetTemperatureC_dtc_def tempCompToRef_dtc_def
      dtc_fixedAlphaPerC_def aph_SetTemperatureC_def slopeAtTemp_def idealSlope25C_def refTempK25C_def Let_def)

text \<open>
  C5 (as amended). For the conductivity driver of robotank\_conductivity/driver.go (the
  version with the \<open>tempValid\<close> flag), made by the factory that initialises that flag
  and then driven by any history of temperature injections and normalisation requests:
  the temperature is marked invalid, and the stored temperature is the reference
  temperature, whenever no injection has occurred or the most recent call of
  \<open>SetTemperatureC\<close> passed a negative value; a normalisation request made when the last
  injection is older than the 2-minute threshold marks it invalid; and whenever it is
  marked invalid, compensation is not applied.
\<close>

theorem temp_state_invariant:
  "NewDriver r s al = Inr d0 \<Longrightarrow>
   (list_all is_Normalize evs \<longrightarrow>
      \<not> tempValid (temp_run d0 evs) \<and> tempC (temp_run d0 evs) = refTempC (temp_run d0 evs))
   \<and> (tC < 0 \<and> list_all is_Normalize post \<longrightarrow>
      \<not> tempValid (temp_run d0 (pre @ (t, Inject tC) # post)) \<and>
      tempC (temp_run d0 (pre @ (t, Inject tC) # post))
        = refTempC (temp_run d0 (pre @ (t, Inject tC) # post)))
   \<and> (tempStaleAfter < now - the (tempUpdatedAt (temp_run d0 evs)) \<longrightarrow>
      \<not> tempValid (temp_run d0 (evs @ [(now, Normalize us)])))
   \<and> (\<not> tempValid (temp_run d0 evs) \<longrightarrow> tempCompToRef (temp_run d0 evs) now us = (us, temp_run d0 evs))"
proof -
  assume nd: "NewDriver r s al = Inr d0"
  have never: "\<not> tempValid (temp_run d0 evs) \<and> tempC (temp_run d0 evs) = refTempC (temp_run d0 evs)"
    if "list_all is_Normalize evs"
    using that NewDriver_state [OF nd] by (simp add: temp_run_Normalize_invalid)
  have sentinel: "\<not> tempValid (temp_run d0 (pre @ (t, Inject tC) # post)) \<and>
      tempC (temp_run d0 (pre @ (t, Inject tC) # post))
        = refTempC (temp_run d0 (pre @ (t, Inject tC) # post))"
    if "tC < 0 \<and> list_all is_Normalize post"
  proof -
    let ?d = "SetTemperatureC (temp_run d0 pre) t tC"
    have run: "temp_run d0 (pre @ (t, Inject tC) # post) = temp_run ?d post"
      by (simp add: temp_run_append temp_run_Cons temp_step_def)
    have inv: "\<not> tempValid ?d \<and> tempC ?d = refTempC ?d"
      using that SetTemperatureC_sentinel [of tC "temp_run d0 pre" t] by simp
    with that have "temp_run ?d post = ?d" by (simp add: temp_run_Normalize_invalid)
    with run inv show ?thesis by simp
  qed
  have stale: "\<not> tempValid (temp_run d0 (evs @ [(now, Normalize us)]))"
    if "tempStaleAfter < now - the (tempUpdatedAt (temp_run d0 evs))"
    using that tempCompToRef_downgrade [of "temp_run d0 evs" now us]
    by (simp add: temp_run_append temp_run_Cons temp_run_Nil temp_step_def)
  have noop: "tempCompToRef (temp_run d0 evs) now us = (us, temp_run d0 evs)"
    if "\<not> tempValid (temp_run d0 evs)"
    using that by (rule tempCompToRef_invalid)
  from never sentinel stale noop show ?thesis by blast
qed

text \<open>
  The theorem at the factory's driver for the anchors 1000 and 20: after a normalisation
  request alone; after an injection of 26 degrees, the sentinel \<open>-1\<close> and a request; and
  after an injection of 26 degrees at time 0 and a request three minutes later.
\<close>

theorem temp_state_invariant_witness:
  "NewDriver 1000 20 (1 / 100)
     = Inr \<lparr>absDFresh = 1000, absDStd = 20, refUS = 53000, alphaPerC = 1 / 100, refTempC = 25,
            tempC = 25, tempUpdatedAt = None, tempValid = False\<rparr>
   \<and> \<not> tempValid (temp_run
        \<lparr>absDFresh = 1000, absDStd = 20, refUS = 53000, alphaPerC = 1 / 100, refTempC = 25,
         tempC = 25, tempUpdatedAt = None, tempValid = False\<rparr> [(5, Normalize 100)])
   \<and> \<not> tempValid (temp_run
        \<lparr>absDFresh = 1000, absDStd = 20, refUS = 53000, alphaPerC = 1 / 100, refTempC = 25,
         tempC = 25, tempUpdatedAt = None, tempValid = False\<rparr>
        [(0, Inject 26), (10, Inject (-1)), (20, Normalize 100)])
   \<and> tempC (temp_run
        \<lparr>absDFresh = 1000, absDStd = 20, refUS = 53000, alphaPerC = 1 / 100, refTempC = 25,
         tempC = 25, tempUpdatedAt = None, tempValid = False\<rparr>
        [(0, Inject 26), (10, Inject (-1)), (20, Normalize 100)]) = 25
   \<and> \<not> tempValid (temp_run
        \<lparr>absDFresh = 1000, absDStd = 20, refUS = 53000, alphaPerC = 1 / 100, refTempC = 25,
         tempC = 25, tempUpdatedAt = None, tempValid = False\<rparr>
        [(0, Inject 26), (180000000000, Normalize 100)])"
proof -
  let ?d0 = "\<lparr>absDFresh = 1000, absDStd = 20, refUS = 53000, alphaPerC = 1 / 100, refTempC = 25,
         tempC = 25, tempUpdatedAt = None, tempValid = False\<rparr>"
  have nd: "NewDriver 1000 20 (1 / 100) = Inr ?d0"
    by (simp add: NewDriver_def ValidateParameters_def fixedRefUS_def fixedRefTempC_def)
  have inj: "temp_run ?d0 [(0, Inject 26)] = ?d0\<lparr>tempUpdatedAt := Some 0, tempC := 26, tempValid := True\<rparr>"
    by (simp add: temp_run_def temp_step_def SetTemperatureC_def)
  have a: "\<not> tempValid (temp_run ?d0 [(5, Normalize 100)])"
    using temp_state_invariant [OF nd, where evs = "[(5, Normalize 100)]"] by simp
  have b: "\<not> tempValid (temp_run ?d0 ([(0, Inject 26)] @ (10, Inject (-1)) # [(20, Normalize 100)])) \<and>
      tempC (temp_run ?d0 ([(0, Inject 26)] @ (10, Inject (-1)) # [(20, Normalize 100)]))
        = refTempC (temp_run ?d0 ([(0, Inject 26)] @ (10, Inject (-1)) # [(20, Normalize 100)]))"
    using temp_state_invariant [OF nd, where tC = "-1" and post = "[(20, Normalize 100)]"
        and pre = "[(0, Inject 26)]" and t = 10] by simp
  have r: "refTempC (temp_run ?d0 [(0, Inject 26), (10, Inject (-1)), (20, Normalize 100)]) = 25"
    by (simp add: temp_run_def temp_step_def SetTemperatureC_def tempCompToRef_def)
  have st: "tempStaleAfter < 180000000000 - the (tempUpdatedAt (temp_run ?d0 [(0, Inject 26)]))"
    by (simp add: inj tempStaleAfter_def Minute_def)
  from temp_state_invariant [OF nd, where evs = "[(0, Inject 26)]" and now = 180000000000 and us = 100] st
  have "\<not> tempValid (temp_run ?d0 ([(0, Inject 26)] @ [(180000000000, Normalize 100)]))"
    by blast
  then have c: "\<not> tempValid (temp_run ?d0 [(0, Inject 26), (180000000000, Normalize 100)])"
    by simp
  from nd a b r c show ?thesis by simp
qed


section \<open>ADC sample decoding\<close>

lemma mask30: "(0x3FFFFFFF :: 32 word) = mask 30"
  by (simp add: mask_eq_exp_minus_1)

lemma code_bits:
  fixes b0 b1 b2 :: byte
  shows "drop_bit 2 (push_bit 24 (ucast b0) OR push_bit 16 (ucast b1) OR push_bit 8 (ucast b2) :: 32 word)
           AND 0x3FFFFFFF
         = push_bit 22 (ucast b0) OR (push_bit 14 (ucast b1) OR push_bit 6 (ucast b2))"
  unfolding mask30
  by (rule bit_word_eqI) (auto simp add: bit_simps bit_ucast_iff dest: bit_imp_le_length)

lemma code_sum:
  fixes b0 b1 b2 :: byte
  shows "(push_bit 22 (ucast b0) OR (push_bit 14 (ucast b1) OR push_bit 6 (ucast b2)) :: 32 word)
         = push_bit 22 (ucast b0) + (push_bit 14 (ucast b1) + push_bit 6 (ucast b2))"
proof -
  have 1: "(push_bit 14 (ucast b1) + push_bit 6 (ucast b2) :: 32 word)
           = push_bit 14 (ucast b1) OR push_bit 6 (ucast b2)"
    by (rule disjunctive_add) (auto simp add: bit_simps bit_ucast_iff dest: bit_imp_le_length)
  have 2: "(push_bit 22 (ucast b0) + (push_bit 14 (ucast b1) OR push_bit 6 (ucast b2)) :: 32 word)
           = push_bit 22 (ucast b0) OR (push_bit 14 (ucast b1) OR push_bit 6 (ucast b2))"
    by (rule disjunctive_add) (auto simp add: bit_simps bit_ucast_iff dest: bit_imp_le_length)
  show ?thesis by (simp only: 1 2)
qed

lemma uint_byte_bound: "0 \<le> uint (b :: byte) \<and> uint b < 256"
  using uint_bounded [of b] by simp

lemma uint_push_ucast:
  fixes b :: byte
  assumes "n \<le> 24"
  shows "uint (push_bit n (ucast b) :: 32 word) = uint b * 2 ^ n"
proof -
  have "uint b * 2 ^ n < 256 * 2 ^ n"
    using uint_byte_bound [of b] by simp
  also have "(256::int) * 2 ^ n = 2 ^ (8 + n)" by (simp add: power_add)
  also have "\<dots> \<le> 2 ^ 32" using assms by (intro power_increasing) simp_all
  finally have lt: "uint b * 2 ^ n < 2 ^ 32" .
  have ge: "0 \<le> uint b * 2 ^ n" by simp
  have uc: "uint (ucast b :: 32 word) = uint b"
    using uint_byte_bound [of b] by (simp add: unsigned_ucast_eq take_bit_int_eq_self)
  have "uint (push_bit n (ucast b) :: 32 word) = take_bit 32 (push_bit n (uint b))"
    by (simp add: unsigned_push_bit_eq uc)
  also have "\<dots> = uint b * 2 ^ n"
    using lt ge by (simp add: push_bit_eq_mult take_bit_int_eq_self)
  finally show ?thesis .
qed

lemma code_uint:
  fixes b0 b1 b2 :: byte
  shows "uint (push_bit 22 (ucast b0) + (push_bit 14 (ucast b1) + push_bit 6 (ucast b2)) :: 32 word)
         = 64 * (65536 * uint b0 + 256 * uint b1 + uint b2)"
proof -
  let ?a = "push_bit 22 (ucast b0) :: 32 word"
  let ?b = "push_bit 14 (ucast b1) :: 32 word"
  let ?c = "push_bit 6 (ucast b2) :: 32 word"
  have a: "uint ?a = uint b0 * 4194304" using uint_push_ucast [of 22 b0] by simp
  have b: "uint ?b = uint b1 * 16384" using uint_push_ucast [of 14 b1] by simp
  have c: "uint ?c = uint b2 * 64" using uint_push_ucast [of 6 b2] by simp
  note bd = uint_byte_bound [of b0] uint_byte_bound [of b1] uint_byte_bound [of b2]
  have bc: "uint (?b + ?c) = uint ?b + uint ?c"
    using bd by (subst uint_add_lem [symmetric]) (simp add: b c)
  have abc: "uint (?a + (?b + ?c)) = uint ?a + uint (?b + ?c)"
    using bd by (subst uint_add_lem [symmetric]) (simp add: a b c bc)
  show ?thesis by (simp add: abc bc a b c)
qed

text \<open>
  C8. For every 3-byte sample the decoded code is
  \<open>((b0<<24 | b1<<16 | b2<<8) >> 2) & 0x3FFFFFFF\<close>, that is the number
  \<open>64 * (65536 * b0 + 256 * b1 + b2)\<close>, a non-negative \<^verbatim>\<open>int32\<close>; the voltage is
  \<open>(code - 0x20000000) / 2^29 * Vref\<close>; the decoding is a function of the bytes; and
  the mid-scale sample \<open>80 00 00\<close>, of code \<open>0x20000000\<close>, decodes to exactly 0 V.
\<close>

theorem adc_decode:
  fixes b0 b1 b2 :: byte
  shows "\<exists>code. adcI2C24ToCode [b0, b1, b2] = Some code
      \<and> code = drop_bit 2 (push_bit 24 (ucast b0) OR push_bit 16 (ucast b1) OR push_bit 8 (ucast b2))
                 AND 0x3FFFFFFF
      \<and> sint code = 64 * (65536 * uint b0 + 256 * uint b1 + uint b2)
      \<and> adcCodeToVolts code vref = (real_of_int (sint code) - 536870912) / 2 ^ 29 * vref
      \<and> adcI2C24ToCode [0x80, 0, 0] = Some 0x20000000
      \<and> adcCodeToVolts 0x20000000 vref = 0"
proof -
  let ?code = "drop_bit 2 (push_bit 24 (ucast b0) OR push_bit 16 (ucast b1) OR push_bit 8 (ucast b2))
                 AND 0x3FFFFFFF :: 32 word"
  have d: "adcI2C24ToCode [b0, b1, b2] = Some ?code"
    by (simp add: adcI2C24ToCode_def)
  have u: "uint ?code = 64 * (65536 * uint b0 + 256 * uint b1 + uint b2)"
    by (simp only: code_bits code_sum code_uint)
  have "uint ?code < 2 ^ 31"
    using uint_byte_bound [of b0] uint_byte_bound [of b1] uint_byte_bound [of b2]
    unfolding u by simp
  then have "sint ?code = uint ?code"
    by (simp add: sint_uint signed_take_bit_eq_if_positive take_bit_int_eq_self bit_iff_odd) 
  with u have s: "sint ?code = 64 * (65536 * uint b0 + 256 * uint b1 + uint b2)" by simp
  have v: "adcCodeToVolts c vref = (real_of_int (sint c) - 536870912) / 2 ^ 29 * vref" for c
    by (simp add: adcCodeToVolts_def adcOffsetBinaryMid_def adcScale_def)
  have m: "adcI2C24ToCode [0x80, 0, 0] = Some 0x20000000"
    by (simp add: adcI2C24ToCode_def)
  have z: "adcCodeToVolts 0x20000000 vref = 0"
    by (simp add: adcCodeToVolts_def adcOffsetBinaryMid_def)
  from d s v m z show ?thesis by simp
qed

section \<open>Result caching of the ADC drivers\<close>

lemma trace_Sleep: "trace (Sleep dur w) = trace w"
  by (simp add: Sleep_def)

lemma trace_enforceMinGap: "trace (enforceMinGap d g w) = trace w"
  by (simp add: enforceMinGap_def Let_def trace_Sleep split: option.splits)

lemma trace_ReadBytes: "trace (snd (ReadBytes n w)) = trace w @ [OpReadBytes n]"
  by (simp add: ReadBytes_def transact_def split: prod.splits)

lemma readAttempts_trace:
  "readAttempts as le d w = (r, d', w') \<Longrightarrow>
   \<exists>k. trace w' = trace w @ replicate k (OpReadBytes 3) \<and> (as \<noteq> [] \<longrightarrow> 0 < k)"
proof (induction as arbitrary: le d w)
  case Nil
  then have "w' = w" by (simp split: option.splits)
  then show ?case by simp
next
  case (Cons a as)
  obtain r1 w1 where rb: "ReadBytes 3 w = (r1, w1)" by (cases "ReadBytes 3 w")
  have t1: "trace w1 = trace w @ [OpReadBytes 3]"
    using trace_ReadBytes [of 3 w] rb by simp
  let ?d1 = "d\<lparr>lastXferAt := Some (clock w)\<rparr>"
  consider (stop) "trace w' = trace w1"
    | (again) le' dur where "readAttempts as le' ?d1 (Sleep dur w1) = (r, d', w')"
    using Cons.prems rb
    by (auto simp add: Let_def trace_Sleep split: sum.splits if_splits option.splits)
  then show ?case
  proof cases
    case stop
    with t1 have "trace w' = trace w @ replicate 1 (OpReadBytes 3)" by simp
    then show ?thesis by blast
  next
    case again
    from Cons.IH [OF again] obtain k
      where "trace w' = trace (Sleep dur w1) @ replicate k (OpReadBytes 3)" by blast
    with t1 have "trace w' = trace w @ replicate (Suc k) (OpReadBytes 3)"
      by (simp add: trace_Sleep replicate_app_Cons_same)
    then show ?thesis by blast
  qed
qed

lemma readAttempts_stored:
  "readAttempts as le d w = (Inr (mv, raw, code), d', w') \<Longrightarrow> as \<noteq> [] \<or> le \<noteq> None \<Longrightarrow>
   lastSampleAt d' \<noteq> None \<and> lastMV d' = mv \<and> lastRaw d' = raw \<and> lastCode d' = code"
proof (induction as arbitrary: le d w)
  case Nil
  then show ?case by (auto split: option.splits)
next
  case (Cons a as)
  obtain r1 w1 where rb: "ReadBytes 3 w = (r1, w1)" by (cases "ReadBytes 3 w")
  let ?d1 = "d\<lparr>lastXferAt := Some (clock w)\<rparr>"
  consider (fin) "lastSampleAt d' \<noteq> None \<and> lastMV d' = mv \<and> lastRaw d' = raw \<and> lastCode d' = code"
    | (again) e dur where "readAttempts as (Some e) ?d1 (Sleep dur w1) = (Inr (mv, raw, code), d', w')"
    using Cons.prems(1) rb
    by (auto simp add: Let_def split: sum.splits if_splits option.splits)
  then show ?case
  proof cases
    case fin
    then show ?thesis .
  next
    case again
    from Cons.IH [OF again] show ?thesis by simp
  qed
qed

lemma readAttempts_frame:
  "readAttempts as le d w = (r, d', w') \<Longrightarrow> adc_dev.more d' = adc_dev.more d \<and> vrefV d' = vrefV d"
proof (induction as arbitrary: le d w)
  case Nil
  then show ?case by (auto split: option.splits)
next
  case (Cons a as)
  obtain r1 w1 where rb: "ReadBytes 3 w = (r1, w1)" by (cases "ReadBytes 3 w")
  let ?d1 = "d\<lparr>lastXferAt := Some (clock w)\<rparr>"
  consider (fin) "adc_dev.more d' = adc_dev.more d \<and> vrefV d' = vrefV d"
    | (again) le' dur where "readAttempts as le' ?d1 (Sleep dur w1) = (r, d', w')"
    using Cons.prems(1) rb
    by (auto simp add: Let_def split: sum.splits if_splits option.splits)
  then show ?case
  proof cases
    case fin
    then show ?thesis .
  next
    case again
    from Cons.IH [OF again] show ?thesis by simp
  qed
qed

lemma readAttempts_fresh:
  "readAttempts as le d w = (Inr (mv, raw, code), d', w') \<Longrightarrow> as \<noteq> [] \<or> le \<noteq> None \<Longrightarrow>
   bus w' = bus w \<and> length (trace w) < length (trace w') \<and>
   snd (bus w (length (trace w') - 1)) = Inr raw \<and>
   adcI2C24ToCode raw = Some code \<and> mv = adcCodeToVolts code (vrefV d) * 1000 \<and>
   lastSampleAt d' = Some (clock w' - settleAfterRead) \<and> clock w \<le> clock w' - settleAfterRead"
proof (induction as arbitrary: le d w)
  case Nil
  then show ?case by (auto split: option.splits)
next
  case (Cons a as)
  obtain lat r1 where b: "bus w (length (trace w)) = (lat, r1)"
    by (cases "bus w (length (trace w))")
  let ?w1 = "w\<lparr>clock := clock w + int lat, trace := trace w @ [OpReadBytes 3]\<rparr>"
  let ?d1 = "d\<lparr>lastXferAt := Some (clock w)\<rparr>"
  have rb: "ReadBytes 3 w = (r1, ?w1)"
    using b by (simp add: ReadBytes_def transact_def)
  consider (fin) "r1 = Inr raw" "adcI2C24ToCode raw = Some code"
      "mv = adcCodeToVolts code (vrefV d) * 1000"
      "lastSampleAt d' = Some (clock ?w1)" "w' = Sleep settleAfterRead ?w1"
    | (again) e dur where "dur = retryDelay \<or> dur = 10 * Millisecond"
      "readAttempts as (Some e) ?d1 (Sleep dur ?w1) = (Inr (mv, raw, code), d', w')"
    using Cons.prems(1) rb
    by (auto simp add: Let_def split: sum.splits if_splits option.splits)
  then show ?case
  proof cases
    case fin
    then show ?thesis using b by (simp add: Sleep_def)
  next
    case again
    from Cons.IH [OF again(2)]
    have ih: "bus w' = bus (Sleep dur ?w1)"
      "length (trace (Sleep dur ?w1)) < length (trace w')"
      "snd (bus (Sleep dur ?w1) (length (trace w') - 1)) = Inr raw"
      "adcI2C24ToCode raw = Some code" "mv = adcCodeToVolts code (vrefV ?d1) * 1000"
      "lastSampleAt d' = Some (clock w' - settleAfterRead)"
      "clock (Sleep dur ?w1) \<le> clock w' - settleAfterRead"
      by simp_all
    from again(1) have "0 \<le> dur" by (auto simp add: retryDelay_def Millisecond_def)
    with ih show ?thesis by (simp add: Sleep_def)
  qed
qed

lemma enforceMinGap_world:
  "bus (enforceMinGap d g w) = bus w \<and> trace (enforceMinGap d g w) = trace w \<and>
   clock w \<le> clock (enforceMinGap d g w)"
  by (simp add: enforceMinGap_def Sleep_def Let_def split: option.splits)

lemma readObservedMV_hit:
  "lastSampleAt d = Some s \<Longrightarrow> clock w - s < cacheMaxAge \<Longrightarrow>
   readObservedMV d w = (Inr (lastMV d, lastRaw d, lastCode d), d, w)"
  by (simp add: readObservedMV_def)

lemma readObservedMV_miss_eq:
  "lastSampleAt d = None \<or> cacheMaxAge \<le> clock w - the (lastSampleAt d) \<Longrightarrow>
   readObservedMV d w = readAttempts [1, 2] None d (enforceMinGap d minI2CGap w)"
  by (auto simp add: readObservedMV_def simp del: readAttempts.simps One_nat_def)

lemma readObservedMV_stored:
  assumes "readObservedMV d w = (Inr (mv, raw, code), d', w')"
  shows "lastSampleAt d' \<noteq> None \<and> lastMV d' = mv \<and> lastRaw d' = raw \<and> lastCode d' = code"
proof (cases "lastSampleAt d \<noteq> None \<and> clock w - the (lastSampleAt d) < cacheMaxAge")
  case True
  with assms show ?thesis by (auto simp add: readObservedMV_def)
next
  case False
  then have "lastSampleAt d = None \<or> cacheMaxAge \<le> clock w - the (lastSampleAt d)" by auto
  from readObservedMV_miss_eq [OF this] assms
  have "readAttempts [1, 2] None d (enforceMinGap d minI2CGap w) = (Inr (mv, raw, code), d', w')"
    by simp
  then show ?thesis by (rule readAttempts_stored) simp
qed

lemma readObservedMV_miss:
  assumes "lastSampleAt d = None \<or> cacheMaxAge \<le> clock w - the (lastSampleAt d)"
  shows "length (trace w) < length (trace (snd (snd (readObservedMV d w))))"
proof -
  obtain r d' w' where ra: "readAttempts [1, 2] None d (enforceMinGap d minI2CGap w) = (r, d', w')"
    by (cases "readAttempts [1, 2] None d (enforceMinGap d minI2CGap w)")
  from readObservedMV_miss_eq [OF assms] ra have ro: "readObservedMV d w = (r, d', w')"
    by simp
  from readAttempts_trace [OF ra] obtain k
    where "trace w' = trace w @ replicate k (OpReadBytes 3)" "0 < k"
    by (auto simp add: trace_enforceMinGap)
  with ro show ?thesis by simp
qed

lemma readObservedMV_frame:
  assumes "readObservedMV d w = (r, d', w')"
  shows "adc_dev.more d' = adc_dev.more d \<and> vrefV d' = vrefV d"
proof (cases "lastSampleAt d \<noteq> None \<and> clock w - the (lastSampleAt d) < cacheMaxAge")
  case True
  with assms show ?thesis by (auto simp add: readObservedMV_def)
next
  case False
  then have "lastSampleAt d = None \<or> cacheMaxAge \<le> clock w - the (lastSampleAt d)" by auto
  from readObservedMV_miss_eq [OF this] assms
  have "readAttempts [1, 2] None d (enforceMinGap d minI2CGap w) = (r, d', w')" by simp
  then show ?thesis by (rule readAttempts_frame)
qed

lemma readObservedMV_fresh:
  assumes "readObservedMV d w = (Inr (mv, raw, code), d', w')"
    and "lastSampleAt d = None \<or> cacheMaxAge \<le> clock w - the (lastSampleAt d)"
  shows "bus w' = bus w \<and> length (trace w) < length (trace w') \<and>
   snd (bus w (length (trace w') - 1)) = Inr raw \<and>
   adcI2C24ToCode raw = Some code \<and> mv = adcCodeToVolts code (vrefV d) * 1000 \<and>
   lastSampleAt d' = Some (clock w' - settleAfterRead) \<and> clock w \<le> clock w' - settleAfterRead"
proof -
  let ?w = "enforceMinGap d minI2CGap w"
  from readObservedMV_miss_eq [OF assms(2)] assms(1)
  have "readAttempts [1, 2] None d ?w = (Inr (mv, raw, code), d', w')" by simp
  from readAttempts_fresh [OF this] enforceMinGap_world [of d minI2CGap w]
  show ?thesis by simp
qed

text \<open>
  C9. A successful acquisition made with no sample stored, or with a sample at least as
  old as the cache window (250 ms), issues a bus transaction, returns the value and code
  decoded from the bytes the bus answered to its last read, and stores them with the
  time at which that read returned. Every later request that arrives while the stored
  sample is younger than the cache window returns the same value, raw bytes and code,
  and leaves the driver and the bus untouched: no transaction is issued. A request made
  with no sample stored, or with a sample at least as old as the window, always issues a
  bus transaction.
\<close>

theorem cache_window:
  "readObservedMV d w = (Inr (mv, raw, code), d', w') \<Longrightarrow>
   cacheMaxAge = 250000000
   \<and> (\<exists>s. lastSampleAt d' = Some s \<and> lastMV d' = mv \<and> lastRaw d' = raw \<and> lastCode d' = code \<and>
        (\<forall>w2. clock w2 - s < cacheMaxAge \<longrightarrow>
           readObservedMV d' w2 = (Inr (mv, raw, code), d', w2)))
   \<and> (lastSampleAt d = None \<or> cacheMaxAge \<le> clock w - the (lastSampleAt d) \<longrightarrow>
        bus w' = bus w \<and> length (trace w) < length (trace w') \<and>
        snd (bus w (length (trace w') - 1)) = Inr raw \<and>
        adcI2C24ToCode raw = Some code \<and> mv = adcCodeToVolts code (vrefV d) * 1000 \<and>
        lastSampleAt d' = Some (clock w' - settleAfterRead) \<and>
        clock w \<le> clock w' - settleAfterRead)
   \<and> (lastSampleAt d \<noteq> None \<and> clock w - the (lastSampleAt d) < cacheMaxAge \<longrightarrow>
        d' = d \<and> w' = w \<and> mv = lastMV d \<and> raw = lastRaw d \<and> code = lastCode d)
   \<and> (lastSampleAt d0 = None \<or> cacheMaxAge \<le> clock w0 - the (lastSampleAt d0) \<longrightarrow>
        length (trace w0) < length (trace (snd (snd (readObservedMV d0 w0)))))"
proof -
  assume ok: "readObservedMV d w = (Inr (mv, raw, code), d', w')"
  from readObservedMV_stored [OF ok] obtain s
    where s: "lastSampleAt d' = Some s"
      and st: "lastMV d' = mv" "lastRaw d' = raw" "lastCode d' = code"
    by auto
  have hit: "readObservedMV d' w2 = (Inr (mv, raw, code), d', w2)"
    if "clock w2 - s < cacheMaxAge" for w2
    using readObservedMV_hit [OF s that] st by simp
  have fresh: "bus w' = bus w \<and> length (trace w) < length (trace w') \<and>
        snd (bus w (length (trace w') - 1)) = Inr raw \<and>
        adcI2C24ToCode raw = Some code \<and> mv = adcCodeToVolts code (vrefV d) * 1000 \<and>
        lastSampleAt d' = Some (clock w' - settleAfterRead) \<and>
        clock w \<le> clock w' - settleAfterRead"
    if "lastSampleAt d = None \<or> cacheMaxAge \<le> clock w - the (lastSampleAt d)"
    using ok that by (rule readObservedMV_fresh)
  have served: "d' = d \<and> w' = w \<and> mv = lastMV d \<and> raw = lastRaw d \<and> code = lastCode d"
    if "lastSampleAt d \<noteq> None \<and> clock w - the (lastSampleAt d) < cacheMaxAge"
    using ok that by (auto simp add: readObservedMV_def)
  have miss: "length (trace w0) < length (trace (snd (snd (readObservedMV d0 w0))))"
    if "lastSampleAt d0 = None \<or> cacheMaxAge \<le> clock w0 - the (lastSampleAt d0)"
    using that by (rule readObservedMV_miss)
  have c: "cacheMaxAge = 250000000" by (simp add: cacheMaxAge_def Millisecond_def)
  from c s st hit fresh served miss show ?thesis by blast
qed

text \<open>
  The theorem at an ORP driver with no sample yet, on a bus that answers its first read
  with \<open>81 00 00\<close> and every later one with \<open>C0 00 00\<close>: the first request reads the bus
  (19.53125 mV, stamped with the time 1 ms at which the read returned); a second request
  100 ms later is served from the cache; a third request at 1.2 s reads the bus again
  and returns and stores the new sample (1250 mV, stamped 1.201 s).
\<close>

theorem cache_window_witness:
  "readObservedMV
     \<lparr>vrefV = 5 / 2, lastXferAt = None, lastSampleAt = None, lastMV = 0, lastRaw = [],
      lastCode = 0, offset = 10\<rparr>
     \<lparr>clock = 0, bus = (\<lambda>k. (1000000, Inr (if k = 0 then [0x81, 0, 0] else [0xC0, 0, 0]))),
      trace = []\<rparr>
   = (Inr (625 / 32, [0x81, 0, 0], 0x20400000),
      \<lparr>vrefV = 5 / 2, lastXferAt = Some 0, lastSampleAt = Some 1000000, lastMV = 625 / 32,
       lastRaw = [0x81, 0, 0], lastCode = 0x20400000, offset = 10\<rparr>,
      \<lparr>clock = 3000000, bus = (\<lambda>k. (1000000, Inr (if k = 0 then [0x81, 0, 0] else [0xC0, 0, 0]))),
       trace = [OpReadBytes 3]\<rparr>)
   \<and> readObservedMV
     \<lparr>vrefV = 5 / 2, lastXferAt = Some 0, lastSampleAt = Some 1000000, lastMV = 625 / 32,
      lastRaw = [0x81, 0, 0], lastCode = 0x20400000, offset = 10\<rparr>
     \<lparr>clock = 100000000, bus = (\<lambda>k. (1000000, Inr (if k = 0 then [0x81, 0, 0] else [0xC0, 0, 0]))),
      trace = [OpReadBytes 3]\<rparr>
   = (Inr (625 / 32, [0x81, 0, 0], 0x20400000),
      \<lparr>vrefV = 5 / 2, lastXferAt = Some 0, lastSampleAt = Some 1000000, lastMV = 625 / 32,
       lastRaw = [0x81, 0, 0], lastCode = 0x20400000, offset = 10\<rparr>,
      \<lparr>clock = 100000000, bus = (\<lambda>k. (1000000, Inr (if k = 0 then [0x81, 0, 0] else [0xC0, 0, 0]))),
       trace = [OpReadBytes 3]\<rparr>)
   \<and> readObservedMV
     \<lparr>vrefV = 5 / 2, lastXferAt = Some 0, lastSampleAt = Some 1000000, lastMV = 625 / 32,
      lastRaw = [0x81, 0, 0], lastCode = 0x20400000, offset = 10\<rparr>
     \<lparr>clock = 1200000000, bus = (\<lambda>k. (1000000, Inr (if k = 0 then [0x81, 0, 0] else [0xC0, 0, 0]))),
      trace = [OpReadBytes 3]\<rparr>
   = (Inr (1250, [0xC0, 0, 0], 0x30000000),
      \<lparr>vrefV = 5 / 2, lastXferAt = Some 1200000000, lastSampleAt = Some 1201000000, lastMV = 1250,
       lastRaw = [0xC0, 0, 0], lastCode = 0x30000000, offset = 10\<rparr>,
      \<lparr>clock = 1203000000, bus = (\<lambda>k. (1000000, Inr (if k = 0 then [0x81, 0, 0] else [0xC0, 0, 0]))),
       trace = [OpReadBytes 3, OpReadBytes 3]\<rparr>)"
proof -
  let ?bus = "\<lambda>k::nat. (1000000::nat, Inr (if k = 0 then [0x81, 0, 0] else [0xC0, 0, 0])
                :: bus_error + byte list)"
  let ?d = "\<lparr>vrefV = 5 / 2, lastXferAt = None, lastSampleAt = None, lastMV = 0, lastRaw = [],
      lastCode = 0, offset = 10\<rparr>"
  let ?w = "\<lparr>clock = 0, bus = ?bus, trace = []\<rparr>"
  let ?d' = "\<lparr>vrefV = 5 / 2, lastXferAt = Some 0, lastSampleAt = Some 1000000, lastMV = 625 / 32,
       lastRaw = [0x81, 0, 0], lastCode = 0x20400000, offset = 10\<rparr>"
  let ?w' = "\<lparr>clock = 3000000, bus = ?bus, trace = [OpReadBytes 3]\<rparr>"
  let ?w2 = "\<lparr>clock = 100000000, bus = ?bus, trace = [OpReadBytes 3]\<rparr>"
  let ?w3 = "\<lparr>clock = 1200000000, bus = ?bus, trace = [OpReadBytes 3]\<rparr>"
  let ?d3 = "\<lparr>vrefV = 5 / 2, lastXferAt = Some 1200000000, lastSampleAt = Some 1201000000,
       lastMV = 1250, lastRaw = [0xC0, 0, 0], lastCode = 0x30000000, offset = 10\<rparr>"
  let ?w3' = "\<lparr>clock = 1203000000, bus = ?bus, trace = [OpReadBytes 3, OpReadBytes 3]\<rparr>"
  have first: "readObservedMV ?d ?w = (Inr (625 / 32, [0x81, 0, 0], 0x20400000), ?d', ?w')"
    by (simp add: readObservedMV_def enforceMinGap_def ReadBytes_def transact_def Sleep_def
        settleAfterRead_def Millisecond_def adcI2C24ToCode_def adcCodeToVolts_def
        adcOffsetBinaryMid_def adcScale_def Let_def)
  have third: "readObservedMV ?d' ?w3 = (Inr (1250, [0xC0, 0, 0], 0x30000000), ?d3, ?w3')"
    by (simp add: readObservedMV_def enforceMinGap_def ReadBytes_def transact_def Sleep_def
        settleAfterRead_def cacheMaxAge_def minI2CGap_def Millisecond_def adcI2C24ToCode_def
        adcCodeToVolts_def adcOffsetBinaryMid_def adcScale_def Let_def)
  from cache_window [OF first] obtain s
    where s: "lastSampleAt ?d' = Some s"
      and hit: "\<forall>w2. clock w2 - s < cacheMaxAge \<longrightarrow>
           readObservedMV ?d' w2 = (Inr (625 / 32, [0x81, 0, 0], 0x20400000), ?d', w2)"
    by blast
  from s have "s = 1000000" by simp
  with hit have second: "readObservedMV ?d' ?w2 = (Inr (625 / 32, [0x81, 0, 0], 0x20400000), ?d', ?w2)"
    by (simp add: cacheMaxAge_def Millisecond_def)
  have old: "lastSampleAt ?d' = None \<or> cacheMaxAge \<le> clock ?w3 - the (lastSampleAt ?d')"
    by (simp add: cacheMaxAge_def Millisecond_def)
  from cache_window [OF third] old
  have "snd (bus ?w3 (length (trace ?w3') - 1)) = Inr [0xC0, 0, 0] \<and>
        lastSampleAt ?d3 = Some (clock ?w3' - settleAfterRead)"
    by blast
  with first second third show ?thesis by simp
qed

section \<open>The ORP driver ignores temperature\<close>

text \<open>
  C10. \<open>SetTemperatureC\<close> on the ORP pin leaves the whole driver state unchanged, whatever
  value is passed, so a reading is the same with or without an injection; and every
  successful acquisition reports the observed electrode millivolts plus the configured
  offset (which the acquisition does not change), with no temperature term.
\<close>

theorem orp_no_temperature:
  "orp_SetTemperatureC d tC = d
   \<and> orp_Value (orp_SetTemperatureC d tC) w = orp_Value d w
   \<and> (case readObservedMV d w of
         (Inl e, d', w') \<Rightarrow> orp_Value d w = (Inl e, d', w')
       | (Inr (mv, raw, code), d', w') \<Rightarrow>
           orp_Value d w = (Inr (mv + offset d), d', w') \<and> offset d' = offset d)
   \<and> orp_Measure d w = orp_Value d w
   \<and> orp_Snapshot d w = orp_Value d w"
proof -
  have fr: "offset d' = offset d" if "readObservedMV d w = (r, d', w')" for r d' w'
  proof -
    from readObservedMV_frame [OF that] have "adc_dev.more d' = adc_dev.more d" by simp
    then show ?thesis by (cases d, cases d') simp
  qed
  have same: "orp_SetTemperatureC d tC = d" by (simp add: orp_SetTemperatureC_def)
  have val: "case readObservedMV d w of
         (Inl e, d', w') \<Rightarrow> orp_Value d w = (Inl e, d', w')
       | (Inr (mv, raw, code), d', w') \<Rightarrow>
           orp_Value d w = (Inr (mv + offset d), d', w') \<and> offset d' = offset d"
  proof (cases "readObservedMV d w")
    case (fields r d' w')
    from fr [OF fields] have o: "offset d' = offset d" .
    show ?thesis
    proof (cases r)
      case (Inl e)
      with fields show ?thesis by (simp add: orp_Value_def)
    next
      case (Inr smp)
      obtain mv raw code where "smp = (mv, raw, code)" by (cases smp)
      with Inr fields o show ?thesis by (simp add: orp_Value_def)
    qed
  qed
  have ms: "orp_Measure d w = orp_Value d w" "orp_Snapshot d w = orp_Value d w"
    by (simp_all add: orp_Measure_def orp_Snapshot_def orp_Value_def)
  from same val ms show ?thesis by simp
qed

text \<open>
  The theorem at an ORP driver of offset 10 after an injection of 30 degrees: the bytes
  \<open>81 00 00\<close> are 19.53125 mV, reported as 29.53125 mV.
\<close>

theorem orp_no_temperature_witness:
  "fst (orp_Value
     (orp_SetTemperatureC
       \<lparr>vrefV = 5 / 2, lastXferAt = None, lastSampleAt = None, lastMV = 0, lastRaw = [],
        lastCode = 0, offset = 10\<rparr> 30)
     \<lparr>clock = 0, bus = (\<lambda>k. (1000000, Inr [0x81, 0, 0])), trace = []\<rparr>)
   = Inr (625 / 32 + 10)"
proof -
  let ?d = "\<lparr>vrefV = 5 / 2, lastXferAt = None, lastSampleAt = None, lastMV = 0, lastRaw = [],
      lastCode = 0, offset = 10\<rparr>"
  let ?w = "\<lparr>clock = 0, bus = (\<lambda>k. (1000000, Inr [0x81, 0, 0])), trace = []\<rparr>"
  let ?d' = "\<lparr>vrefV = 5 / 2, lastXferAt = Some 0, lastSampleAt = Some 1000000, lastMV = 625 / 32,
       lastRaw = [0x81, 0, 0], lastCode = 0x20400000, offset = 10\<rparr>"
  let ?w' = "\<lparr>clock = 3000000, bus = (\<lambda>k. (1000000, Inr [0x81, 0, 0])), trace = [OpReadBytes 3]\<rparr>"
  have first: "readObservedMV ?d ?w = (Inr (625 / 32, [0x81, 0, 0], 0x20400000), ?d', ?w')"
    by (simp add: readObservedMV_def enforceMinGap_def ReadBytes_def transact_def Sleep_def
        settleAfterRead_def Millisecond_def adcI2C24ToCode_def adcCodeToVolts_def
        adcOffsetBinaryMid_def adcScale_def Let_def)
  from orp_no_temperature [of ?d 30 ?w] first
  have "orp_Value (orp_SetTemperatureC ?d 30) ?w = (Inr (625 / 32 + offset ?d), ?d', ?w')"
    by simp
  then show ?thesis by simp
qed


section \<open>Conversion polling of the ADS1115 driver\<close>

lemma ReadFromReg_ok:
  assumes "bus w (length (trace w)) = (lat, Inr bs)"
  shows "ReadFromReg reg n w =
           (Inr (take n (bs @ replicate n 0)),
            w\<lparr>clock := clock w + int lat, trace := trace w @ [OpReadFromReg reg n]\<rparr>)"
  using assms by (simp add: ReadFromReg_def transact_def)

lemma pollElapsed_0: "pollElapsed w n 0 = int (fst (bus w n))"
  by (simp add: pollElapsed_def)

lemma pollElapsed_Suc:
  "pollElapsed w n (Suc j) = int (fst (bus w n)) + convPollWait + pollElapsed w (Suc n) j"
proof -
  have "(\<Sum>i\<le>Suc j. int (fst (bus w (n + i))))
        = int (fst (bus w n)) + (\<Sum>i\<le>j. int (fst (bus w (Suc n + i))))"
    by (simp add: sum.atMost_Suc_shift del: sum.atMost_Suc)
  then show ?thesis by (simp add: pollElapsed_def algebra_simps)
qed

lemma pollLoop_timeout:
  "(\<forall>j \<le> m. \<exists>lat bs. bus w (length (trace w) + j) = (lat, Inr bs) \<and>
        be16 (take 2 (bs @ replicate 2 0)) AND configOsSingle = 0) \<Longrightarrow>
   (\<forall>j < m. clock w + pollElapsed w (length (trace w)) j \<le> deadline) \<Longrightarrow>
   deadline < clock w + pollElapsed w (length (trace w)) m \<Longrightarrow>
   \<exists>cfg w'. pollLoop deadline w = (Some (ConversionTimeout cfg), w') \<and>
      trace w' = trace w @ replicate (Suc m) (OpReadFromReg regConfig 2) \<and>
      bus w' = bus w \<and> clock w' = clock w + pollElapsed w (length (trace w)) m"
proof (induction m arbitrary: w)
  case 0
  from "0.prems"(1) obtain lat bs
    where b: "bus w (length (trace w)) = (lat, Inr bs)"
      and nr: "be16 (take 2 (bs @ replicate 2 0)) AND configOsSingle = 0"
    by auto
  let ?cfg = "take 2 (bs @ replicate 2 0)"
  let ?w1 = "w\<lparr>clock := clock w + int lat, trace := trace w @ [OpReadFromReg regConfig 2]\<rparr>"
  have rd: "ReadFromReg regConfig 2 w = (Inr ?cfg, ?w1)"
    using b by (rule ReadFromReg_ok)
  have late: "deadline < clock ?w1"
    using "0.prems"(3) b by (simp add: pollElapsed_0)
  have "pollLoop deadline w = (Some (ConversionTimeout (be16 ?cfg)), ?w1)"
    using late nr by (subst pollLoop.simps) (simp add: rd)
  moreover have "clock ?w1 = clock w + pollElapsed w (length (trace w)) 0"
    using b by (simp add: pollElapsed_0)
  ultimately show ?case by simp
next
  case (Suc m)
  from Suc.prems(1) [rule_format, of 0] obtain lat bs
    where b: "bus w (length (trace w)) = (lat, Inr bs)"
      and nr: "be16 (take 2 (bs @ replicate 2 0)) AND configOsSingle = 0"
    by auto
  let ?cfg = "take 2 (bs @ replicate 2 0)"
  let ?w1 = "w\<lparr>clock := clock w + int lat, trace := trace w @ [OpReadFromReg regConfig 2]\<rparr>"
  let ?w2 = "Sleep convPollWait ?w1"
  have rd: "ReadFromReg regConfig 2 w = (Inr ?cfg, ?w1)"
    using b by (rule ReadFromReg_ok)
  have early: "\<not> deadline < clock ?w1"
    using Suc.prems(2) [rule_format, of 0] b by (simp add: pollElapsed_0)
  have step: "pollLoop deadline w = pollLoop deadline ?w2"
    using early nr by (subst pollLoop.simps) (simp add: rd)
  have len2: "length (trace ?w2) = Suc (length (trace w))" and bus2: "bus ?w2 = bus w"
    and clk2: "clock ?w2 = clock w + int lat + convPollWait"
    by (simp_all add: Sleep_def)
  have el: "clock ?w2 + pollElapsed ?w2 (length (trace ?w2)) j
            = clock w + pollElapsed w (length (trace w)) (Suc j)" for j
    using b by (simp add: len2 clk2 pollElapsed_Suc) (simp add: pollElapsed_def Sleep_def)
  have p1: "\<forall>j \<le> m. \<exists>lat bs. bus ?w2 (length (trace ?w2) + j) = (lat, Inr bs) \<and>
        be16 (take 2 (bs @ replicate 2 0)) AND configOsSingle = 0"
  proof (intro allI impI)
    fix j assume "j \<le> m"
    then have "Suc j \<le> Suc m" by simp
    from Suc.prems(1) [rule_format, OF this]
    show "\<exists>lat bs. bus ?w2 (length (trace ?w2) + j) = (lat, Inr bs) \<and>
        be16 (take 2 (bs @ replicate 2 0)) AND configOsSingle = 0"
      by (simp add: Sleep_def)
  qed
  have p2: "\<forall>j < m. clock ?w2 + pollElapsed ?w2 (length (trace ?w2)) j \<le> deadline"
  proof (intro allI impI)
    fix j assume "j < m"
    then have "Suc j < Suc m" by simp
    from Suc.prems(2) [rule_format, OF this] show
      "clock ?w2 + pollElapsed ?w2 (length (trace ?w2)) j \<le> deadline"
      by (simp only: el)
  qed
  have p3: "deadline < clock ?w2 + pollElapsed ?w2 (length (trace ?w2)) m"
    using Suc.prems(3) by (simp only: el)
  from Suc.IH [OF p1 p2 p3] obtain cfg w'
    where r: "pollLoop deadline ?w2 = (Some (ConversionTimeout cfg), w')"
      and t: "trace w' = trace ?w2 @ replicate (Suc m) (OpReadFromReg regConfig 2)"
      and bw: "bus w' = bus ?w2"
      and cw: "clock w' = clock ?w2 + pollElapsed ?w2 (length (trace ?w2)) m"
    by blast
  from t have "trace w' = trace w @ replicate (Suc (Suc m)) (OpReadFromReg regConfig 2)"
    by (simp add: Sleep_def replicate_app_Cons_same)
  moreover from bw have "bus w' = bus w" by (simp add: Sleep_def)
  moreover from cw have "clock w' = clock w + pollElapsed w (length (trace w)) (Suc m)"
    by (simp only: el)
  ultimately show ?case using r step by simp
qed

lemma pollElapsed_bus: "bus w' = bus w \<Longrightarrow> pollElapsed w' n j = pollElapsed w n j"
  by (simp add: pollElapsed_def)

text \<open>
  Against C7 as it is written: each turn of the loop tests the ready bit before it tests
  the deadline. On a bus whose first poll returns 60 ms after the polling began, past the
  50 ms timeout, with the OS bit set, the bit was not observed before the timeout
  elapsed; the driver nevertheless reads the conversion register and returns the
  reading, not a timeout error.
\<close>

theorem late_ready_counterexample:
  "convTimeout < pollElapsed
      \<lparr>clock = 0,
       bus = (\<lambda>k. if k = 2 then (0, Inr [0x12, 0x34]) else (60000000, Inr [0x85, 0x83])),
       trace = []\<rparr> 1 0
   \<and> performConversion \<lparr>mux = 0x4000, gainConfig = 0x0200, tdsK = 1, tdsOffset = 0, delay = 0\<rparr>
      \<lparr>clock = 0,
       bus = (\<lambda>k. if k = 2 then (0, Inr [0x12, 0x34]) else (60000000, Inr [0x85, 0x83])),
       trace = []\<rparr>
     = (Inr 0x1234,
        \<lparr>clock = 120000000,
         bus = (\<lambda>k. if k = 2 then (0, Inr [0x12, 0x34]) else (60000000, Inr [0x85, 0x83])),
         trace = [OpWriteToReg 1 [0xC3, 0xE3], OpReadFromReg 1 2, OpReadFromReg 0 2]\<rparr>)"
  by (simp add: pollElapsed_def performConversion_def WriteToReg_def ReadFromReg_def transact_def
      pollLoop.simps be16_def regConfig_def regConversion_def configOsSingle_def
      configModeSingle_def configComparatorModeTraditional_def configComparitorNonLatching_def
      configComparitorPolarityActiveLow_def configComparitorQueueNone_def configDataRate860_def
      convTimeout_def Millisecond_def Let_def)

text \<open>
  C7 (as amended). \<open>performConversion\<close> starts a conversion by writing the two bytes of
  the configuration register and then polls that register, sleeping \<open>convPollWait\<close>
  between polls. If the write succeeds and every poll, up to and including the first one
  that returns after the hard timeout (\<open>convTimeout\<close> after the polling began), succeeds
  and shows the ready (OS) bit clear, then the result is the timeout error: the bus has
  seen one write of the configuration register followed only by reads of it, the
  conversion register is never read, and \<open>measureAll\<close>, \<open>Measure\<close> and \<open>Value\<close> pass the
  error on without a second attempt. (\<^verbatim>\<open>performConversionDebug\<close> in
  ads1115tds/driver.go issues the same write and runs the same loop, without the
  optional settle delay.)
\<close>

theorem conversion_timeout:
  assumes "\<exists>lat bs. bus w (length (trace w)) = (lat, Inr bs)"
    and "\<forall>j \<le> m. \<exists>lat bs. bus w (Suc (length (trace w)) + j) = (lat, Inr bs) \<and>
           be16 (take 2 (bs @ replicate 2 0)) AND configOsSingle = 0"
    and "\<forall>j < m. pollElapsed w (Suc (length (trace w))) j \<le> convTimeout"
    and "convTimeout < pollElapsed w (Suc (length (trace w))) m"
  shows "\<exists>cfg buf w'.
           performConversion c w = (Inl (ConversionTimeout cfg), w')
         \<and> trace w' = trace w @ OpWriteToReg regConfig buf # replicate (Suc m) (OpReadFromReg regConfig 2)
         \<and> length buf = 2
         \<and> OpReadFromReg regConversion 2 \<notin> set (drop (length (trace w)) (trace w'))
         \<and> clock w + convTimeout < clock w'
         \<and> measureAll c w = (Inl (ConversionTimeout cfg), w')
         \<and> tds_Measure c w = (Inl (ConversionTimeout cfg), w')
         \<and> tds_Value c w = (Inl (ConversionTimeout cfg), w')"
proof -
  let ?config = "configOsSingle OR configModeSingle OR configComparatorModeTraditional OR
                    configComparitorNonLatching OR configComparitorPolarityActiveLow OR
                    configComparitorQueueNone OR mux c OR gainConfig c OR configDataRate860"
  let ?buf = "[ucast (drop_bit 8 ?config), ucast ?config] :: byte list"
  from assms(1) obtain lat bs where b: "bus w (length (trace w)) = (lat, Inr bs)" by blast
  let ?w1 = "w\<lparr>clock := clock w + int lat, trace := trace w @ [OpWriteToReg regConfig ?buf]\<rparr>"
  define w2 where "w2 = (if delay c > 0 then Sleep (delay c) ?w1 else ?w1)"
  have wr: "WriteToReg regConfig ?buf w = (None, ?w1)"
    using b by (simp add: WriteToReg_def transact_def)
  have tr2: "trace w2 = trace w @ [OpWriteToReg regConfig ?buf]" and bus2: "bus w2 = bus w"
    and clk2: "clock w \<le> clock w2"
    by (simp_all add: w2_def Sleep_def)
  have len2: "length (trace w2) = Suc (length (trace w))" by (simp add: tr2)
  note el = pollElapsed_bus [OF bus2]
  have p1: "\<forall>j \<le> m. \<exists>lat bs. bus w2 (length (trace w2) + j) = (lat, Inr bs) \<and>
        be16 (take 2 (bs @ replicate 2 0)) AND configOsSingle = 0"
    using assms(2) by (simp only: len2 bus2)
  have p2: "\<forall>j < m. clock w2 + pollElapsed w2 (length (trace w2)) j \<le> clock w2 + convTimeout"
    using assms(3) by (simp add: len2 el)
  have p3: "clock w2 + convTimeout < clock w2 + pollElapsed w2 (length (trace w2)) m"
    using assms(4) by (simp add: len2 el)
  from pollLoop_timeout [OF p1 p2 p3] obtain cfg w'
    where p: "pollLoop (clock w2 + convTimeout) w2 = (Some (ConversionTimeout cfg), w')"
      and t: "trace w' = trace w2 @ replicate (Suc m) (OpReadFromReg regConfig 2)"
      and d: "clock w' = clock w2 + pollElapsed w2 (length (trace w2)) m"
    by blast
  have pc: "performConversion c w = (Inl (ConversionTimeout cfg), w')"
    unfolding performConversion_def Let_def wr prod.case option.case w2_def [symmetric]
    by (simp add: p)
  have tr: "trace w' = trace w @ OpWriteToReg regConfig ?buf # replicate (Suc m) (OpReadFromReg regConfig 2)"
    using t unfolding tr2 by simp
  have never: "OpReadFromReg regConversion 2 \<notin> set (drop (length (trace w)) (trace w'))"
    unfolding tr by (simp add: regConversion_def regConfig_def)
  have clk: "clock w + convTimeout < clock w'"
    using d p3 clk2 by linarith
  have ma: "measureAll c w = (Inl (ConversionTimeout cfg), w')"
    by (simp add: measureAll_def pc)
  have me: "tds_Measure c w = (Inl (ConversionTimeout cfg), w')"
    by (simp add: tds_Measure_def ma)
  have va: "tds_Value c w = (Inl (ConversionTimeout cfg), w')"
    by (simp add: tds_Value_def me)
  have "length ?buf = 2" by simp
  with pc tr never clk ma me va show ?thesis by blast
qed

text \<open>
  The theorem at channel AIN0 with gain one on a bus that answers every transaction after
  30 ms, every read with \<open>05 83\<close> (OS bit clear): the first poll returns 30 ms after the
  polling began, the second one after 60.2 ms, past the 50 ms timeout.
\<close>

theorem conversion_timeout_witness:
  "tds_Value \<lparr>mux = 0x4000, gainConfig = 0x0200, tdsK = 1, tdsOffset = 0, delay = 0\<rparr>
     \<lparr>clock = 0, bus = (\<lambda>k. (30000000, Inr [0x05, 0x83])), trace = []\<rparr>
   = (Inl (ConversionTimeout 0x0583),
      \<lparr>clock = 90200000, bus = (\<lambda>k. (30000000, Inr [0x05, 0x83])),
       trace = [OpWriteToReg 1 [0xC3, 0xE3], OpReadFromReg 1 2, OpReadFromReg 1 2]\<rparr>)
   \<and> pollElapsed \<lparr>clock = 0, bus = (\<lambda>k. (30000000, Inr [0x05, 0x83])), trace = []\<rparr> 1 0 = 30000000
   \<and> pollElapsed \<lparr>clock = 0, bus = (\<lambda>k. (30000000, Inr [0x05, 0x83])), trace = []\<rparr> 1 1 = 60200000
   \<and> convTimeout = 50000000"
proof -
  let ?c = "\<lparr>mux = 0x4000, gainConfig = 0x0200, tdsK = 1, tdsOffset = 0, delay = 0\<rparr>"
  let ?w = "\<lparr>clock = 0, bus = (\<lambda>k. (30000000, Inr [0x05, 0x83])), trace = []\<rparr>"
  have e0: "pollElapsed ?w 1 0 = 30000000" and e1: "pollElapsed ?w 1 1 = 60200000"
    and ct: "convTimeout = 50000000"
    by (simp_all add: pollElapsed_def convPollWait_def Microsecond_def convTimeout_def
        Millisecond_def)
  have h1: "\<exists>lat bs. bus ?w (length (trace ?w)) = (lat, Inr bs)" by simp
  have h2: "\<forall>j \<le> 1. \<exists>lat bs. bus ?w (Suc (length (trace ?w)) + j) = (lat, Inr bs) \<and>
           be16 (take 2 (bs @ replicate 2 0)) AND configOsSingle = 0"
    by (simp add: be16_def configOsSingle_def)
  have h3: "\<forall>j < 1. pollElapsed ?w (Suc (length (trace ?w))) j \<le> convTimeout"
    using e0 ct by simp
  have h4: "convTimeout < pollElapsed ?w (Suc (length (trace ?w))) 1"
    using e1 ct by simp
  from conversion_timeout [OF h1 h2 h3 h4, of ?c] obtain cfg buf w'
    where va: "tds_Value ?c ?w = (Inl (ConversionTimeout cfg), w')"
      and tr: "trace w' = trace ?w @ OpWriteToReg regConfig buf # replicate (Suc 1) (OpReadFromReg regConfig 2)"
      and pc: "performConversion ?c ?w = (Inl (ConversionTimeout cfg), w')"
    by blast
  have ev: "performConversion ?c ?w = (Inl (ConversionTimeout 0x0583),
      \<lparr>clock = 90200000, bus = (\<lambda>k. (30000000, Inr [0x05, 0x83])),
       trace = [OpWriteToReg 1 [0xC3, 0xE3], OpReadFromReg 1 2, OpReadFromReg 1 2]\<rparr>)"
    by (simp add: performConversion_def WriteToReg_def ReadFromReg_def transact_def Sleep_def
        pollLoop.simps be16_def regConfig_def configOsSingle_def configModeSingle_def
        configComparatorModeTraditional_def configComparitorNonLatching_def
        configComparitorPolarityActiveLow_def configComparitorQueueNone_def configDataRate860_def
        convTimeout_def convPollWait_def Microsecond_def Millisecond_def Let_def)
  with pc va have "tds_Value ?c ?w = (Inl (ConversionTimeout 0x0583),
      \<lparr>clock = 90200000, bus = (\<lambda>k. (30000000, Inr [0x05, 0x83])),
       trace = [OpWriteToReg 1 [0xC3, 0xE3], OpReadFromReg 1 2, OpReadFromReg 1 2]\<rparr>)"
    by simp
  with e0 e1 ct show ?thesis by simp
qed

end
